theory Spec2Isabelle
  imports Complex_Main
begin

section \<open>Shared numeric helpers (utils.js)\<close>

text \<open>
  JavaScript numbers are modelled as HOL reals: every formula below is the exact,
  unrounded reading of the source expression.  Where the source can produce a value
  that is not a real number (a quotient with a zero divisor), the model makes that
  outcome explicit instead of relying on HOL's total division.
\<close>

type_synonym rgb = "real \<times> real \<times> real"

definition lerp :: "real \<Rightarrow> real \<Rightarrow> real \<Rightarrow> real" where
  "lerp a b t = a + (b - a) * t"

definition clamp :: "real \<Rightarrow> real \<Rightarrow> real \<Rightarrow> real" where
  "clamp v lo hi = max lo (min hi v)"

text \<open>
  \<open>mapRange\<close> divides by \<open>inHi - inLo\<close>; every call in the modelled sources passes
  the input range \<open>0, 1\<close>, so the divisor is \<open>1\<close>.
\<close>

definition mapRange :: "real \<Rightarrow> real \<Rightarrow> real \<Rightarrow> real \<Rightarrow> real \<Rightarrow> real" where
  "mapRange v inLo inHi outLo outHi =
     (let t = (v - inLo) / (inHi - inLo) in lerp outLo outHi (clamp t 0 1))"

section \<open>Numbers that leave the reals\<close>

text \<open>
  A quotient of two finite numbers is the one place in the modelled sources where a
  JavaScript number stops being a real: a zero divisor gives an infinity, or \<open>NaN\<close> when
  the dividend is zero as well.  \<open>jsnum\<close> carries those outcomes through the few
  operations the sources apply to such a quotient.  A difference of two equal numbers is
  \<open>+0\<close>, so the sign of the infinity is the sign of the dividend.
\<close>

datatype jsnum = Fin real | PosInf | NegInf | NaN

definition js_div :: "real \<Rightarrow> real \<Rightarrow> jsnum" where
  "js_div a b =
     (if b \<noteq> 0 then Fin (a / b)
      else if a = 0 then NaN
      else if 0 < a then PosInf else NegInf)"

text \<open>\<open>Math.min\<close> and \<open>Math.max\<close> return \<open>NaN\<close> as soon as one argument is \<open>NaN\<close>.\<close>

fun js_min :: "jsnum \<Rightarrow> jsnum \<Rightarrow> jsnum" where
  "js_min NaN _ = NaN"
| "js_min _ NaN = NaN"
| "js_min NegInf _ = NegInf"
| "js_min _ NegInf = NegInf"
| "js_min PosInf y = y"
| "js_min x PosInf = x"
| "js_min (Fin a) (Fin b) = Fin (min a b)"

fun js_max :: "jsnum \<Rightarrow> jsnum \<Rightarrow> jsnum" where
  "js_max NaN _ = NaN"
| "js_max _ NaN = NaN"
| "js_max PosInf _ = PosInf"
| "js_max _ PosInf = PosInf"
| "js_max NegInf y = y"
| "js_max x NegInf = x"
| "js_max (Fin a) (Fin b) = Fin (max a b)"

fun js_ceil :: "jsnum \<Rightarrow> jsnum" where
  "js_ceil (Fin a) = Fin (of_int \<lceil>a\<rceil>)"
| "js_ceil x = x"

fun is_finite :: "jsnum \<Rightarrow> bool" where
  "is_finite (Fin _) = True"
| "is_finite _ = False"

section \<open>Stores into a Float32Array\<close>

text \<open>
  The particle pools keep their attributes in \<open>Float32Array\<close>s.  Storing a number there
  rounds it to the nearest binary32 value, ties to even: 24 significant bits in the
  binade of the number, and multiples of \<open>2 powr -149\<close> below \<open>2 powr -126\<close>.  The
  double-precision arithmetic in front of the store is taken as exact.  A magnitude that
  rounds to \<open>2 powr 128\<close> or more is stored as an infinity by the source; the model keeps
  the rounded real, which compares with \<open>1.0\<close> as the infinity does.
\<close>

definition round_half_even :: "real \<Rightarrow> int" where
  "round_half_even y =
     (let f = \<lfloor>y\<rfloor>; d = y - of_int f
      in if d < 1 / 2 then f else if d > 1 / 2 then f + 1 else if even f then f else f + 1)"

definition float32_exponent :: "real \<Rightarrow> int" where
  "float32_exponent x = max \<lfloor>log 2 \<bar>x\<bar>\<rfloor> (- 126)"

definition float32_ulp :: "real \<Rightarrow> real" where
  "float32_ulp x = 2 powr (of_int (float32_exponent x) - 23)"

definition fround :: "real \<Rightarrow> real" where
  "fround x =
     (if x = 0 then 0 else of_int (round_half_even (x / float32_ulp x)) * float32_ulp x)"

section \<open>Geometry synthesiser (engine\_mesh.js)\<close>

text \<open>
  A profile is the array \<open>[[x, r], ...]\<close> of the mesh payload; a buffer attribute of item
  size 3 (or 2) is a list of triples (or pairs), one item per vertex, and the index
  buffer is a list of triangles, so that \<open>positions.push(x, y, z)\<close> appends one item and
  \<open>indices.push(a, c, b, b, c, d)\<close> appends two triangles.  Coordinates are the numbers the
  builder computes, taken as reals; the conversion of the finished arrays to 32-bit
  floats by \<open>Float32BufferAttribute\<close> is left out.
\<close>

type_synonym vec3 = "real \<times> real \<times> real"
type_synonym station = "real \<times> real"
type_synonym triangle = "nat \<times> nat \<times> nat"

datatype error = TypeError

record vertex =
  v_position :: vec3
  v_normal :: vec3
  v_uv :: "real \<times> real"

record geometry =
  positions :: "vec3 list"
  normals :: "vec3 list"
  uvs :: "(real \<times> real) list"
  indices :: "triangle list"

text \<open>
  \<open>profile2d[k][0]\<close> and \<open>profile2d[k][1]\<close>: reading an array outside its bounds gives
  \<open>undefined\<close>, and indexing \<open>undefined\<close> throws a \<open>TypeError\<close>.  The index is an integer,
  since the source computes \<open>i - 1\<close> at \<open>i = 0\<close>.
\<close>

definition station_at :: "station list \<Rightarrow> int \<Rightarrow> error + station" where
  "station_at profile2d k =
     (if 0 \<le> k \<and> k < int (length profile2d) then Inr (profile2d ! nat k) else Inl TypeError)"

text \<open>
  The tangent \<open>(dx, dr)\<close> at station \<open>i\<close>: forward difference, backward at the last
  station.
\<close>

definition lathe_tangent :: "station list \<Rightarrow> nat \<Rightarrow> error + (real \<times> real)" where
  "lathe_tangent profile2d i =
     (case station_at profile2d (int i) of
        Inl e \<Rightarrow> Inl e
      | Inr (x, r) \<Rightarrow>
          if int i < int (length profile2d) - 1 then
            (case station_at profile2d (int i + 1) of
               Inl e \<Rightarrow> Inl e
             | Inr (x1, r1) \<Rightarrow> Inr (x1 - x, r1 - r))
          else
            (case station_at profile2d (int i - 1) of
               Inl e \<Rightarrow> Inl e
             | Inr (x0, r0) \<Rightarrow> Inr (x - x0, r - r0)))"

text \<open>\<open>Math.sqrt(dx * dx + dr * dr) || 1\<close>: a zero length is replaced by 1.\<close>

definition tangent_len :: "real \<Rightarrow> real \<Rightarrow> real" where
  "tangent_len dx dr = (let l = sqrt (dx * dx + dr * dr) in if l = 0 then 1 else l)"

definition circ_angle :: "nat \<Rightarrow> nat \<Rightarrow> real" where
  "circ_angle nCirc j = (real j / real nCirc) * pi * 2"

text \<open>
  One ring of \<open>nCirc + 1\<close> vertices (the inner loop \<open>j = 0 .. nCirc\<close>) for a station with
  axial position \<open>x\<close>, radius \<open>r\<close>, texture coordinate \<open>u\<close> and normal \<open>(nx, nr)\<close> in the
  axial-radial plane.  With \<open>nCirc = 0\<close> the source divides \<open>0 / 0\<close>; the callers pass 64,
  and the properties below are stated for \<open>nCirc \<ge> 1\<close>.
\<close>

definition ring_vertex :: "nat \<Rightarrow> real \<Rightarrow> real \<Rightarrow> real \<Rightarrow> real \<Rightarrow> real \<Rightarrow> nat \<Rightarrow> vertex" where
  "ring_vertex nCirc x r u nx nr j =
     (let theta = circ_angle nCirc j; cosT = cos theta; sinT = sin theta in
        \<lparr>v_position = (x, r * cosT, r * sinT),
         v_normal = (nx, nr * cosT, nr * sinT),
         v_uv = (u, real j / real nCirc)\<rparr>)"

definition lathe_ring :: "station list \<Rightarrow> nat \<Rightarrow> nat \<Rightarrow> error + vertex list" where
  "lathe_ring profile2d nCirc i =
     (case station_at profile2d (int i) of
        Inl e \<Rightarrow> Inl e
      | Inr (x, r) \<Rightarrow>
          (case lathe_tangent profile2d i of
             Inl e \<Rightarrow> Inl e
           | Inr (dx, dr) \<Rightarrow>
               (let u = real i / (real (length profile2d) - 1);
                    len = tangent_len dx dr;
                    nx = - dr / len;
                    nr = dx / len
                in Inr (map (ring_vertex nCirc x r u nx nr) [0..<Suc nCirc]))))"

text \<open>The outer loop over the stations; the first exception ends it.\<close>

fun lathe_rings :: "station list \<Rightarrow> nat \<Rightarrow> nat list \<Rightarrow> error + vertex list" where
  "lathe_rings profile2d nCirc [] = Inr []"
| "lathe_rings profile2d nCirc (i # rest) =
     (case lathe_ring profile2d nCirc i of
        Inl e \<Rightarrow> Inl e
      | Inr ring \<Rightarrow>
          (case lathe_rings profile2d nCirc rest of
             Inl e \<Rightarrow> Inl e
           | Inr others \<Rightarrow> Inr (ring @ others)))"

definition lathe_quad :: "nat \<Rightarrow> nat \<Rightarrow> nat \<Rightarrow> triangle list" where
  "lathe_quad nCirc i j =
     (let a = i * (nCirc + 1) + j;
          b = a + 1;
          c = (i + 1) * (nCirc + 1) + j;
          d = c + 1
      in [(a, c, b), (b, c, d)])"

text \<open>
  The index loops \<open>i = 0 .. nAxial - 2\<close>, \<open>j = 0 .. nCirc - 1\<close>.  For an empty profile
  the bound \<open>nAxial - 1\<close> is \<open>-1\<close> and the loop does not run; the truncated subtraction
  on naturals gives the same empty range.
\<close>

definition lathe_indices :: "nat \<Rightarrow> nat \<Rightarrow> triangle list" where
  "lathe_indices nAxial nCirc =
     concat (map (\<lambda>i. concat (map (lathe_quad nCirc i) [0..<nCirc])) [0..<nAxial - 1])"

definition geometry_of :: "vertex list \<Rightarrow> triangle list \<Rightarrow> geometry" where
  "geometry_of vs tris =
     \<lparr>positions = map v_position vs, normals = map v_normal vs, uvs = map v_uv vs,
      indices = tris\<rparr>"

definition createLatheGeometry :: "station list \<Rightarrow> nat \<Rightarrow> error + geometry" where
  "createLatheGeometry profile2d segments =
     (case lathe_rings profile2d segments [0..<length profile2d] of
        Inl e \<Rightarrow> Inl e
      | Inr vs \<Rightarrow> Inr (geometry_of vs (lathe_indices (length profile2d) segments)))"


definition triangle_count :: "geometry \<Rightarrow> nat" where
  "triangle_count g = length (indices g)"











subsection \<open>End caps and injector face\<close>

definition cap_vertices :: "real \<Rightarrow> real \<Rightarrow> real \<Rightarrow> nat \<Rightarrow> real \<Rightarrow> nat \<Rightarrow> vertex list" where
  "cap_vertices x rInner rOuter segments nx j =
     (let theta = circ_angle segments j; cosT = cos theta; sinT = sin theta;
          v = real j / real segments
      in [\<lparr>v_position = (x, rInner * cosT, rInner * sinT), v_normal = (nx, 0, 0), v_uv = (0, v)\<rparr>,
          \<lparr>v_position = (x, rOuter * cosT, rOuter * sinT), v_normal = (nx, 0, 0), v_uv = (1, v)\<rparr>])"

definition cap_quad :: "bool \<Rightarrow> nat \<Rightarrow> triangle list" where
  "cap_quad faceNegativeX j =
     (let i0 = j * 2; o0 = j * 2 + 1; i1 = (j + 1) * 2; o1 = (j + 1) * 2 + 1
      in if faceNegativeX then [(i0, o0, i1), (i1, o0, o1)] else [(i0, i1, o0), (o0, i1, o1)])"

definition createEndCapGeometry :: "real \<Rightarrow> real \<Rightarrow> real \<Rightarrow> nat \<Rightarrow> bool \<Rightarrow> geometry" where
  "createEndCapGeometry x rInner rOuter segments faceNegativeX =
     (let nx = (if faceNegativeX then - 1 else 1) in
        geometry_of
          (concat (map (cap_vertices x rInner rOuter segments nx) [0..<Suc segments]))
          (concat (map (cap_quad faceNegativeX) [0..<segments])))"

definition disc_vertex :: "real \<Rightarrow> real \<Rightarrow> nat \<Rightarrow> nat \<Rightarrow> vertex" where
  "disc_vertex x rInner segments j =
     (let theta = circ_angle segments j; cosT = cos theta; sinT = sin theta
      in \<lparr>v_position = (x, rInner * cosT, rInner * sinT), v_normal = (- 1, 0, 0),
          v_uv = (0.5 + 0.5 * cosT, 0.5 + 0.5 * sinT)\<rparr>)"

definition createInjectorFaceGeometry :: "real \<Rightarrow> real \<Rightarrow> nat \<Rightarrow> geometry" where
  "createInjectorFaceGeometry x rInner segments =
     geometry_of
       (\<lparr>v_position = (x, 0, 0), v_normal = (- 1, 0, 0), v_uv = (0.5, 0.5)\<rparr>
          # map (disc_vertex x rInner segments) [0..<Suc segments])
       (map (\<lambda>j. (0, j + 1, j)) [1..<Suc segments])"

subsection \<open>Injector face with orifice holes\<close>

record orifice =
  o_y :: real
  o_z :: real
  o_radius :: real
  o_type :: string

text \<open>
  The smallest orifice radius, starting from the face radius (the loop
  \<open>if (o.radius < minOrificeRadius) minOrificeRadius = o.radius\<close>).
\<close>

definition minOrificeRadius :: "real \<Rightarrow> orifice list \<Rightarrow> real" where
  "minOrificeRadius faceRadius orifices =
     fold (\<lambda>orf m. if o_radius orf < m then o_radius orf else m) orifices faceRadius"

definition nRadial :: "real \<Rightarrow> orifice list \<Rightarrow> jsnum" where
  "nRadial faceRadius orifices =
     (let cellTarget = minOrificeRadius faceRadius orifices in
        js_min (Fin 120) (js_max (Fin 40) (js_ceil (js_div faceRadius cellTarget))))"

definition nAngular :: "real \<Rightarrow> orifice list \<Rightarrow> nat \<Rightarrow> jsnum" where
  "nAngular faceRadius orifices segments =
     (let cellTarget = minOrificeRadius faceRadius orifices in
        js_min (Fin 512)
          (js_max (Fin (real segments)) (js_ceil (js_div (2 * pi * faceRadius) cellTarget))))"

definition grid_radius :: "real \<Rightarrow> nat \<Rightarrow> nat \<Rightarrow> real" where
  "grid_radius faceRadius nR i = (real i / real nR) * faceRadius"

definition grid_theta :: "nat \<Rightarrow> nat \<Rightarrow> real" where
  "grid_theta nA j = (real j / real nA) * pi * 2"

definition grid_vertex :: "real \<Rightarrow> real \<Rightarrow> nat \<Rightarrow> nat \<Rightarrow> nat \<Rightarrow> nat \<Rightarrow> vertex" where
  "grid_vertex x faceRadius nR nA i j =
     (let r = grid_radius faceRadius nR i; theta = grid_theta nA j
      in \<lparr>v_position = (x, r * cos theta, r * sin theta), v_normal = (- 1, 0, 0), v_uv = (0, 0)\<rparr>)"

text \<open>The centre \<open>(cy, cz)\<close> of grid cell \<open>(i, j)\<close>.\<close>

definition cell_center :: "real \<Rightarrow> nat \<Rightarrow> nat \<Rightarrow> nat \<Rightarrow> nat \<Rightarrow> real \<times> real" where
  "cell_center faceRadius nR nA i j =
     (let r0 = grid_radius faceRadius nR i;
          r1 = grid_radius faceRadius nR (i + 1);
          rMid = (r0 + r1) / 2;
          tMid = (grid_theta nA j + grid_theta nA (j + 1)) / 2
      in (rMid * cos tMid, rMid * sin tMid))"

definition inside_orifice :: "real \<times> real \<Rightarrow> orifice \<Rightarrow> bool" where
  "inside_orifice c orf =
     (case c of (cy, cz) \<Rightarrow>
        (let dy = cy - o_y orf; dz = cz - o_z orf
         in dy * dy + dz * dz < o_radius orf * o_radius orf))"

definition grid_cell :: "real \<Rightarrow> orifice list \<Rightarrow> nat \<Rightarrow> nat \<Rightarrow> nat \<Rightarrow> nat \<Rightarrow> triangle list" where
  "grid_cell faceRadius orifices nR nA i j =
     (if list_ex (inside_orifice (cell_center faceRadius nR nA i j)) orifices then []
      else
        (let a = i * (nA + 1) + j;
             b = i * (nA + 1) + (j + 1);
             c = (i + 1) * (nA + 1) + j;
             d = (i + 1) * (nA + 1) + (j + 1)
         in if i = 0 then [(a, d, c)] else [(a, b, c), (b, d, c)]))"

definition grid_face :: "real \<Rightarrow> real \<Rightarrow> orifice list \<Rightarrow> nat \<Rightarrow> nat \<Rightarrow> geometry" where
  "grid_face x faceRadius orifices nR nA =
     geometry_of
       (concat (map (\<lambda>i. map (grid_vertex x faceRadius nR nA i) [0..<Suc nA]) [0..<Suc nR]))
       (concat (map (\<lambda>i. concat (map (grid_cell faceRadius orifices nR nA i) [0..<nA])) [0..<nR]))"

text \<open>
  The flat markers in front of the face: display radius, whether the orifice carries
  fuel, and the marker position.
\<close>

definition orifice_marker :: "real \<Rightarrow> real \<Rightarrow> orifice \<Rightarrow> real \<times> bool \<times> vec3" where
  "orifice_marker x faceRadius orf =
     (max (o_radius orf * 2.0) (faceRadius * 0.03), o_type orf = ''fuel'',
      (x - 0.001, o_y orf, o_z orf))"

text \<open>
  \<open>createInjectorFaceWithOrifices\<close>: the face mesh and the markers.  Both resolutions
  are finite whole numbers unless the quotient \<open>faceRadius / cellTarget\<close> is \<open>NaN\<close>; a loop
  whose bound is \<open>NaN\<close> does not run, so the face is empty then.  (The uv attribute is
  not set by this builder; the stored uv items are placeholders.)
\<close>

definition createInjectorFaceWithOrifices ::
  "real \<Rightarrow> real \<Rightarrow> orifice list \<Rightarrow> nat \<Rightarrow> geometry \<times> (real \<times> bool \<times> vec3) list" where
  "createInjectorFaceWithOrifices x faceRadius orifices segments =
     (case (nRadial faceRadius orifices, nAngular faceRadius orifices segments) of
        (Fin nR, Fin nA) \<Rightarrow> grid_face x faceRadius orifices (nat \<lfloor>nR\<rfloor>) (nat \<lfloor>nA\<rfloor>)
      | _ \<Rightarrow> geometry_of [] [],
      map (orifice_marker x faceRadius) orifices)"

subsection \<open>The engine mesh\<close>

record mesh_data =
  profile_2d :: "station list"
  outer_profile_2d :: "station list"
  injector_orifices :: "orifice list option"

record engine_mesh =
  outerGeo :: geometry
  innerGeo :: geometry
  edgeGeo :: geometry
  chamberCapGeo :: geometry
  nozzleCapGeo :: geometry
  injectorGeo :: geometry

definition circumSegments :: nat where
  "circumSegments = 64"

text \<open>
  \<open>buildEngineMesh\<close>, as the sequence of geometry builders it runs: outer wall, inner
  wall, wireframe clone of the outer wall, the two end caps (which read the first and
  the last station of both profiles), and the injector face.  An exception in one step
  ends the function.  Materials, the scene graph and the line-only cooling indicators
  (built only when the outer profile has at least two stations) are left out.
\<close>

definition buildEngineMesh :: "mesh_data \<Rightarrow> error + engine_mesh" where
  "buildEngineMesh meshData =
     (let profile2d = profile_2d meshData; outerProfile2d = outer_profile_2d meshData in
      case createLatheGeometry outerProfile2d circumSegments of Inl e \<Rightarrow> Inl e | Inr outerG \<Rightarrow>
      case createLatheGeometry profile2d circumSegments of Inl e \<Rightarrow> Inl e | Inr innerG \<Rightarrow>
      case station_at profile2d 0 of Inl e \<Rightarrow> Inl e | Inr (x0, r0) \<Rightarrow>
      case station_at outerProfile2d 0 of Inl e \<Rightarrow> Inl e | Inr (xo0, ro0) \<Rightarrow>
      let nLast = int (length profile2d) - 1 in
      case station_at profile2d nLast of Inl e \<Rightarrow> Inl e | Inr (xn, rn) \<Rightarrow>
      case station_at outerProfile2d nLast of Inl e \<Rightarrow> Inl e | Inr (xon, ron) \<Rightarrow>
        Inr \<lparr>outerGeo = outerG, innerGeo = innerG, edgeGeo = outerG,
             chamberCapGeo = createEndCapGeometry x0 r0 ro0 circumSegments True,
             nozzleCapGeo = createEndCapGeometry xn rn ron circumSegments False,
             injectorGeo =
               (case injector_orifices meshData of
                  Some (orf # orfs) \<Rightarrow>
                    fst (createInjectorFaceWithOrifices x0 r0 (orf # orfs) circumSegments)
                | _ \<Rightarrow> createInjectorFaceGeometry x0 r0 circumSegments)\<rparr>)"

section \<open>Colour ramps (color\_scales.js, cooling\_viz.js)\<close>

type_synonym jsrgb = "jsnum \<times> jsnum \<times> jsnum"

text \<open>
  \<open>thermalColor(value, min, max)\<close>.  The ratio \<open>(value - min) / (max - min)\<close> is taken as
  it is written, with no guard on the divisor, and then clamped with
  \<open>Math.max(0, Math.min(1, t))\<close>.  A finite \<open>t\<close> walks through the four colour bands.  When
  \<open>t\<close> is \<open>NaN\<close> every comparison \<open>t < c\<close> is false, so the last band is taken with
  \<open>s = NaN\<close>: red is 1, green is \<open>1 - s = NaN\<close>, blue is 0.  The two infinite rows cannot
  be reached after the clamp; they are what the same comparisons would give.
\<close>

definition thermalColor :: "real \<Rightarrow> real \<Rightarrow> real \<Rightarrow> jsrgb" where
  "thermalColor val mn mx =
     (case js_max (Fin 0) (js_min (Fin 1) (js_div (val - mn) (mx - mn))) of
        Fin t \<Rightarrow>
          if t < 0.25 then (Fin 0, Fin (t / 0.25), Fin 1)
          else if t < 0.5 then (Fin 0, Fin 1, Fin (1 - (t - 0.25) / 0.25))
          else if t < 0.75 then (Fin ((t - 0.5) / 0.25), Fin 1, Fin 0)
          else (Fin 1, Fin (1 - (t - 0.75) / 0.25), Fin 0)
      | NaN \<Rightarrow> (Fin 1, NaN, Fin 0)
      | PosInf \<Rightarrow> (Fin 1, NegInf, Fin 0)
      | NegInf \<Rightarrow> (Fin 0, NegInf, Fin 1))"

fun in_unit :: "jsnum \<Rightarrow> bool" where
  "in_unit (Fin a) = (0 \<le> a \<and> a \<le> 1)"
| "in_unit _ = False"

text \<open>
  The colour \<open>applyHeatMap\<close> gives station \<open>i\<close>: \<open>tMin\<close> and \<open>tMax\<close> are the extremes of
  the station temperatures, and a station past the end of the array takes \<open>tMin\<close>.  For
  an empty array \<open>Math.min()\<close> is \<open>Infinity\<close> and \<open>Math.max()\<close> is \<open>-Infinity\<close>, the ratio is
  \<open>NaN\<close>, and the colour is the \<open>NaN\<close> row of \<open>thermalColor\<close>.
\<close>

definition heat_station_color :: "real list \<Rightarrow> nat \<Rightarrow> jsrgb" where
  "heat_station_color stationTemps i =
     (if stationTemps = [] then (Fin 1, NaN, Fin 0)
      else
        (let tMin = Min (set stationTemps);
             tMax = Max (set stationTemps);
             temp = (if i < length stationTemps then stationTemps ! i else tMin)
         in thermalColor temp tMin tMax))"

text \<open>
  \<open>coolantColor(temp, tMin, tMax)\<close> of the cooling cutaway: the divisor is
  \<open>Math.max(tMax - tMin, 1)\<close>, never zero.
\<close>

definition coolantColor :: "real \<Rightarrow> real \<Rightarrow> real \<Rightarrow> rgb" where
  "coolantColor temp tMin tMax =
     (let t = clamp ((temp - tMin) / max (tMax - tMin) 1) 0 1 in
        if t < 0.33 then (let s = t / 0.33 in (0, mapRange s 0 1 0.3 0.9, 1))
        else if t < 0.66 then (let s = (t - 0.33) / 0.33 in (s, 0.9, 1 - s))
        else (let s = (t - 0.66) / 0.34 in (1, mapRange s 0 1 0.9 0.15, 0)))"

section \<open>Flow overlay: Mach colouring of the inner wall (flow\_viz.js)\<close>

definition machColor :: "real \<Rightarrow> rgb" where
  "machColor M =
     (if M \<le> 1.0 then
        (let t = clamp M 0 1 in
           (mapRange t 0 1 0.2 1.0, mapRange t 0 1 0.4 1.0, mapRange t 0 1 1.0 1.0))
      else
        (let t = clamp ((M - 1.0) / 3.0) 0 1 in
           (1.0, mapRange t 0 1 1.0 0.2, mapRange t 0 1 1.0 0.1)))"

text \<open>
  The inner mesh as far as the flow overlay touches it: the optional per-vertex colour
  attribute (one RGB item per vertex) and the material's \<open>vertexColors\<close> flag.
\<close>

record inner_mesh =
  color_attr :: "rgb list option"
  vertexColors :: bool

text \<open>
  \<open>colors.setXYZ(idx, r, g, b)\<close> writes into a typed array: a write past the end is
  ignored, which is what \<open>list_update\<close> does.  The inner loop runs \<open>j = 0 .. nCirc\<close>.
\<close>

definition paint_station :: "nat \<Rightarrow> nat \<Rightarrow> 'a \<Rightarrow> 'a list \<Rightarrow> 'a list" where
  "paint_station nCirc i c colors =
     fold (\<lambda>j cs. cs[i * (nCirc + 1) + j := c]) [0..<Suc nCirc] colors"

definition flow_station_mach :: "real list \<Rightarrow> nat \<Rightarrow> real" where
  "flow_station_mach machArray i = (if i < length machArray then machArray ! i else 1.0)"

definition paint_mach :: "real list \<Rightarrow> nat \<Rightarrow> nat \<Rightarrow> rgb list \<Rightarrow> rgb list" where
  "paint_mach machArray nStations nCirc colors =
     fold (\<lambda>i cs. paint_station nCirc i (machColor (flow_station_mach machArray i)) cs)
       [0..<nStations] colors"

text \<open>
  \<open>applyFlowVisualization(machArray, coolantData)\<close>, without the coolant arrows it draws
  afterwards.  The arguments \<open>nStations\<close> and \<open>nCirc\<close> are what \<open>getStationCount()\<close>
  and \<open>getCircumSegments()\<close> return.  The result is the inner mesh and the module flag
  \<open>flowColorsApplied\<close>; a missing mesh or a missing Mach array returns at once.
\<close>

definition applyFlowVisualization ::
  "inner_mesh option \<Rightarrow> bool \<Rightarrow> real list option \<Rightarrow> nat \<Rightarrow> nat \<Rightarrow> inner_mesh option \<times> bool" where
  "applyFlowVisualization innerMesh flowColorsApplied machArray nStations nCirc =
     (case (innerMesh, machArray) of
        (Some mesh, Some ma) \<Rightarrow>
          (let vertexCount = nStations * (nCirc + 1);
               colors = (case color_attr mesh of
                           Some cs \<Rightarrow> if length cs \<noteq> vertexCount
                                      then replicate vertexCount (0, 0, 0) else cs
                         | None \<Rightarrow> replicate vertexCount (0, 0, 0));
               colors' = paint_mach ma nStations nCirc colors
           in (Some (mesh\<lparr>color_attr := Some colors', vertexColors := True\<rparr>), True))
      | _ \<Rightarrow> (innerMesh, flowColorsApplied))"

text \<open>
  The colour buffer \<open>applyHeatMap\<close> fills: \<open>posCount\<close> zeroed items, then the station colour
  on each of the \<open>nCirc + 1\<close> vertices of every station.
\<close>

definition heat_colors :: "real list \<Rightarrow> nat \<Rightarrow> nat \<Rightarrow> nat \<Rightarrow> jsrgb list" where
  "heat_colors stationTemps nStations nCirc posCount =
     fold (\<lambda>i cs. paint_station nCirc i (heat_station_color stationTemps i) cs)
       [0..<nStations] (replicate posCount (Fin 0, Fin 0, Fin 0))"

section \<open>Exhaust plume (flame\_particles.js)\<close>

record exhaust_physics =
  exit_mach :: real
  exit_pressure_Pa :: real
  ambient_pressure_Pa :: real
  exit_temperature_K :: real
  gamma :: real

record plume_derived =
  pressureRatio :: real
  plumeHalfAngle :: real
  shockSpacing :: real
  plumeLength :: real

text \<open>
  \<open>_recomputeDerived()\<close>, as a function of the physics record and the cached exit radius.
  The Mach number is floored at 1.01, so \<open>Math.asin(1 / M)\<close> has its argument in \<open>(0, 1)\<close>,
  and \<open>Math.log\<close> is only applied to ratios above 1.
\<close>

definition recomputeDerived :: "exhaust_physics \<Rightarrow> real \<Rightarrow> plume_derived" where
  "recomputeDerived ph exitR =
     (let M = max (exit_mach ph) 1.01;
          Pe = exit_pressure_Pa ph;
          Pa = ambient_pressure_Pa ph;
          ratio = Pe / max Pa 1.0;
          machAngle = arcsin (1.0 / M);
          halfAngle =
            (if ratio > 1.0 then machAngle * min (1.0 + 0.4 * ln ratio) 2.5
             else machAngle * max (0.5 * ratio) 0.15);
          D_exit = 2.0 * exitR;
          basePlumeLength = max (exitR * 14) 0.15
      in \<lparr>pressureRatio = ratio,
          plumeHalfAngle = halfAngle,
          shockSpacing = 1.22 * D_exit * sqrt (M * M - 1.0),
          plumeLength =
            (if ratio > 1.0 then basePlumeLength * (1.0 + 0.6 * ln ratio)
             else basePlumeLength * max 0.4 ratio)\<rparr>)"

text \<open>
  The factor \<open>_recomputeDerived\<close> applies to the Mach angle, written as a function of
  the pressure ratio (used to state the monotonicity properties).
\<close>

definition angle_factor :: "real \<Rightarrow> real" where
  "angle_factor ratio =
     (if ratio > 1 then min (1 + 0.4 * ln ratio) 2.5 else max (0.5 * ratio) 0.15)"

subsection \<open>Plume particles\<close>

record particle =
  p_position :: vec3
  p_lifetime :: real
  p_radius :: real

text \<open>
  Each call of \<open>Math.random()\<close> is an input of the model, a real in \<open>[0, 1)\<close>.  A step of
  one particle takes three of them: \<open>u0\<close> for the jitter of the increment, and \<open>u1\<close>,
  \<open>u2\<close> for the lifetime and the radial fraction drawn by \<open>resetParticle\<close> (read only when
  the particle is reset).
\<close>

type_synonym draws = "real \<times> real \<times> real"

text \<open>
  \<open>resetParticle\<close> writes the exit position, the drawn lifetime and the radial fraction
  \<open>Math.pow(Math.random(), 0.6)\<close> into the three \<open>Float32Array\<close>s of the pool.
\<close>

definition resetParticle :: "real \<Rightarrow> real \<Rightarrow> real \<Rightarrow> particle \<Rightarrow> particle" where
  "resetParticle exitX u1 u2 p =
     p\<lparr>p_position := (fround exitX, 0, 0), p_lifetime := fround u1,
       p_radius := fround (u2 powr 0.6)\<rparr>"

definition flame_speed :: "real \<Rightarrow> real" where
  "flame_speed thrustScale = 0.006 + thrustScale * 0.008"

text \<open>
  The body of the particle loop of \<open>updateFlame\<close>: \<open>lifetimes[i] += ...\<close> stores the sum
  into the \<open>Float32Array\<close>, and the test \<open>lifetimes[i] > 1.0\<close> reads the stored value.
\<close>

definition advance_flame_particle :: "real \<Rightarrow> real \<Rightarrow> draws \<Rightarrow> particle \<Rightarrow> particle" where
  "advance_flame_particle exitX thrustScale d p =
     (case d of (u0, u1, u2) \<Rightarrow>
        (let p' = p\<lparr>p_lifetime :=
                     fround (p_lifetime p + (flame_speed thrustScale + u0 * 0.002))\<rparr>
         in if p_lifetime p' > 1.0 then resetParticle exitX u1 u2 p' else p'))"

record flame_state =
  fl_exitX :: real
  fl_exitR :: real
  fl_physics :: exhaust_physics
  fl_derived :: plume_derived
  fl_particles :: "particle list option"

text \<open>
  \<open>updateFlame(exitX, exitRadius, thrustScale)\<close>: nothing happens without a particle
  system; otherwise the exit geometry is cached, the derived quantities are recomputed
  and every particle of the pool is advanced, particle \<open>i\<close> with the draws \<open>ds i\<close>.  The
  shader uniforms are left out.
\<close>

definition updateFlame :: "real \<Rightarrow> real \<Rightarrow> real \<Rightarrow> (nat \<Rightarrow> draws) \<Rightarrow> flame_state \<Rightarrow> flame_state" where
  "updateFlame exitX exitRadius thrustScale ds st =
     (case fl_particles st of
        None \<Rightarrow> st
      | Some ps \<Rightarrow>
          st\<lparr>fl_exitX := exitX, fl_exitR := exitRadius,
             fl_derived := recomputeDerived (fl_physics st) exitRadius,
             fl_particles :=
               Some (map (\<lambda>i. advance_flame_particle exitX thrustScale (ds i) (ps ! i))
                       [0..<length ps])\<rparr>)"

definition good_draws :: "draws \<Rightarrow> bool" where
  "good_draws d = (case d of (u0, u1, u2) \<Rightarrow>
     0 \<le> u0 \<and> u0 < 1 \<and> 0 \<le> u1 \<and> u1 < 1 \<and> 0 \<le> u2 \<and> u2 < 1)"

section \<open>Internal flow particles (internal\_flow.js)\<close>

text \<open>
  A lifetime of the internal-flow pool is a number or \<open>NaN\<close> (\<open>None\<close>): the velocity lookup
  reads \<open>undefined\<close> outside the velocity array, and arithmetic on \<open>undefined\<close> gives \<open>NaN\<close>.
\<close>

type_synonym lifetime = "real option"

definition velocity_at :: "real list \<Rightarrow> int \<Rightarrow> real option" where
  "velocity_at velocity k =
     (if 0 \<le> k \<and> k < int (length velocity) then Some (velocity ! nat k) else None)"

text \<open>
  The wrap \<open>if (lifetimes[i] >= 1.0) lifetimes[i] -= 1.0\<close> on a stored lifetime; the
  difference is stored into the \<open>Float32Array\<close> again.
\<close>

definition wrap_lifetime :: "real \<Rightarrow> real" where
  "wrap_lifetime l = (if l \<ge> 1.0 then fround (l - 1.0) else l)"

text \<open>
  The body of the particle loop of \<open>updateInternalFlow\<close>, for a lifetime \<open>t\<close>, the
  velocity array and the cached \<open>_maxVelocity\<close>; \<open>lifetimes[i] += ...\<close> stores the sum into
  the \<open>Float32Array\<close>.
\<close>

definition flow_step :: "real list \<Rightarrow> real \<Rightarrow> lifetime \<Rightarrow> lifetime" where
  "flow_step velocity maxVelocity lt =
     (case lt of
        None \<Rightarrow> None
      | Some t \<Rightarrow>
          (let nStations = int (length velocity);
               srcIdx = t * real_of_int (nStations - 1);
               lo = \<lfloor>srcIdx\<rfloor>;
               hi = min (lo + 1) (nStations - 1);
               frac = srcIdx - real_of_int lo
           in case (velocity_at velocity lo, velocity_at velocity hi) of
                (Some vlo, Some vhi) \<Rightarrow>
                  (let localVel = vlo * (1 - frac) + vhi * frac;
                       speedFactor = localVel / maxVelocity;
                       dt = 0.012
                   in Some (wrap_lifetime (fround (t + dt * (0.3 + 0.7 * speedFactor)))))
              | _ \<Rightarrow> None))"

text \<open>The body of the particle loop of \<open>advanceInternalFlowParticles\<close>.\<close>

definition frame_step :: "lifetime \<Rightarrow> lifetime" where
  "frame_step lt =
     (case lt of None \<Rightarrow> None | Some t \<Rightarrow> Some (wrap_lifetime (fround (t + 0.012 * 0.6))))"

record flow_state =
  if_lifetimes :: "lifetime list option"
  if_maxVelocity :: real

text \<open>
  \<open>updateInternalFlow(flowData)\<close>, as far as the lifetimes go: it returns at once without
  a particle system or with fewer than two stations; \<open>_maxVelocity\<close> is
  \<open>Math.max(...velocity_m_s, 1.0)\<close>.  \<open>advanceInternalFlowParticles()\<close> returns at once
  without a particle system or when \<open>_maxVelocity \<le> 0\<close>.
\<close>

definition updateInternalFlow :: "real list \<Rightarrow> real list \<Rightarrow> flow_state \<Rightarrow> flow_state" where
  "updateInternalFlow station_x velocity_m_s st =
     (case if_lifetimes st of
        None \<Rightarrow> st
      | Some ls \<Rightarrow>
          if length station_x < 2 then st
          else
            (let maxV = fold max velocity_m_s 1.0
             in \<lparr>if_lifetimes = Some (map (flow_step velocity_m_s maxV) ls),
                 if_maxVelocity = maxV\<rparr>))"

definition advanceInternalFlowParticles :: "flow_state \<Rightarrow> flow_state" where
  "advanceInternalFlowParticles st =
     (case if_lifetimes st of
        None \<Rightarrow> st
      | Some ls \<Rightarrow>
          if if_maxVelocity st \<le> 0 then st
          else st\<lparr>if_lifetimes := Some (map frame_step ls)\<rparr>)"

fun lifetime_ok :: "lifetime \<Rightarrow> bool" where
  "lifetime_ok (Some t) = (0 \<le> t \<and> t < 1)"
| "lifetime_ok None = False"

section \<open>Overlay controller (main.js and the four overlay modules)\<close>

datatype mode = Normal | Heatmap | Stress | Flow | Cooling

text \<open>
  Material objects are compared by reference.  \<open>MeshMaterial n\<close> is the material
  \<open>buildEngineMesh\<close> creates for the \<open>n\<close>-th outer wall, \<open>ChannelMaterial n\<close> the \<open>n\<close>-th shader
  material of the cooling overlay; the heat-map and the stress material are created once
  and kept, so each is one fixed reference.
\<close>

datatype material = MeshMaterial nat | HeatMaterial | StressMaterial | ChannelMaterial nat

text \<open>
  The parts of a \<open>sim_tick\<close> payload the controller tests: a field is \<open>None\<close> when
  \<open>stations\<close> (or \<open>cooling\<close>) or the field itself is missing.
\<close>

record sim_data =
  wall_temp_inner_K :: "real list option"
  von_mises_stress_MPa :: "real list option"
  mach :: "real list option"
  coolant_velocity_m_s :: "real list option"

text \<open>
  The state the overlays read and write: the controller's own variables, the outer
  wall's material reference (\<open>None\<close> while no mesh exists), the inner mesh, and the
  module variables of \<open>heat_map.js\<close>, \<open>stress_overlay.js\<close>, \<open>flow_viz.js\<close> and
  \<open>cooling_viz.js\<close>.  Groups are recorded by their presence.  The scene and the renderer
  exist from \<open>initScene\<close> on, before any handler runs; the mesh payload carries
  \<open>station_x\<close>.  The legend, the section slider's visibility, clipping planes and textures
  are left out.
\<close>

record viz =
  vizMode :: mode
  lastSimData :: "sim_data option"
  lastMeshData :: "mesh_data option"
  coolingEnabled :: bool
  outerMaterial :: "material option"
  innerMesh :: "inner_mesh option"
  stationCount :: nat
  heat_original :: "material option"
  stress_original :: "material option"
  flowColorsApplied :: bool
  coolantArrows :: bool
  channelShaderActive :: bool
  channelMaterial :: "material option"
  savedOuterMaterial :: "material option"
  cutawayGroup :: bool
  crossSectionGroup :: bool
  freshMaterial :: nat

definition init_viz :: viz where
  "init_viz =
     \<lparr>vizMode = Normal, lastSimData = None, lastMeshData = None, coolingEnabled = True,
      outerMaterial = None, innerMesh = None, stationCount = 0,
      heat_original = None, stress_original = None,
      flowColorsApplied = False, coolantArrows = False,
      channelShaderActive = False, channelMaterial = None, savedOuterMaterial = None,
      cutawayGroup = False, crossSectionGroup = False, freshMaterial = 0\<rparr>"

subsection \<open>Heat map and stress overlay\<close>

text \<open>
  \<open>applyHeatMap\<close> and \<open>clearHeatMap\<close> as far as material references go (the colour
  buffer is \<open>heat_colors\<close>): the original material is captured on the first application
  only, and \<open>clearHeatMap\<close> puts it back whenever a mesh and a captured material exist.
\<close>

definition applyHeatMap :: "viz \<Rightarrow> viz" where
  "applyHeatMap s =
     (case outerMaterial s of
        None \<Rightarrow> s
      | Some m \<Rightarrow>
          s\<lparr>heat_original := (case heat_original s of None \<Rightarrow> Some m | Some orig \<Rightarrow> Some orig),
            outerMaterial := Some HeatMaterial\<rparr>)"

definition clearHeatMap :: "viz \<Rightarrow> viz" where
  "clearHeatMap s =
     (case (outerMaterial s, heat_original s) of
        (Some m, Some orig) \<Rightarrow> s\<lparr>outerMaterial := Some orig\<rparr>
      | _ \<Rightarrow> s)"

definition applyStressOverlay :: "viz \<Rightarrow> viz" where
  "applyStressOverlay s =
     (case outerMaterial s of
        None \<Rightarrow> s
      | Some m \<Rightarrow>
          s\<lparr>stress_original := (case stress_original s of None \<Rightarrow> Some m | Some orig \<Rightarrow> Some orig),
            outerMaterial := Some StressMaterial\<rparr>)"

definition clearStressOverlay :: "viz \<Rightarrow> viz" where
  "clearStressOverlay s =
     (case (outerMaterial s, stress_original s) of
        (Some m, Some orig) \<Rightarrow> s\<lparr>outerMaterial := Some orig\<rparr>
      | _ \<Rightarrow> s)"

subsection \<open>Flow overlay\<close>

definition removeCoolantArrows :: "viz \<Rightarrow> viz" where
  "removeCoolantArrows s = s\<lparr>coolantArrows := False\<rparr>"

definition drawCoolantFlow :: "viz \<Rightarrow> viz" where
  "drawCoolantFlow s =
     (let s1 = removeCoolantArrows s in
        if outerMaterial s1 = None then s1 else s1\<lparr>coolantArrows := True\<rparr>)"

text \<open>
  \<open>applyFlowVisualization(machArray, coolantData)\<close> on the controller state: the colours
  of the inner mesh, then the arrows when coolant velocities are present.
\<close>

definition applyFlow :: "real list \<Rightarrow> real list option \<Rightarrow> viz \<Rightarrow> viz" where
  "applyFlow machArray coolantVelocity s =
     (if innerMesh s = None then s
      else
        (let r = applyFlowVisualization (innerMesh s) (flowColorsApplied s) (Some machArray)
                   (stationCount s) circumSegments;
             s1 = s\<lparr>innerMesh := fst r, flowColorsApplied := snd r\<rparr>
         in if coolantVelocity \<noteq> None then drawCoolantFlow s1 else s1))"

definition clearFlowViz :: "viz \<Rightarrow> viz" where
  "clearFlowViz s =
     (let s1 = removeCoolantArrows s in
        if flowColorsApplied s1 then
          s1\<lparr>innerMesh :=
               (case innerMesh s1 of
                  None \<Rightarrow> None
                | Some mesh \<Rightarrow> Some (mesh\<lparr>color_attr := None, vertexColors := False\<rparr>)),
             flowColorsApplied := False\<rparr>
        else s1)"

subsection \<open>Cooling overlay\<close>

definition removeCrossSection :: "viz \<Rightarrow> viz" where
  "removeCrossSection s = s\<lparr>crossSectionGroup := False\<rparr>"

definition clearCutawayAndCrossSection :: "viz \<Rightarrow> viz" where
  "clearCutawayAndCrossSection s = removeCrossSection (s\<lparr>cutawayGroup := False\<rparr>)"

definition clearCoolingViz :: "viz \<Rightarrow> viz" where
  "clearCoolingViz s =
     (let s1 = clearCutawayAndCrossSection s in
        if channelShaderActive s1 then
          s1\<lparr>outerMaterial :=
               (case (outerMaterial s1, savedOuterMaterial s1) of
                  (Some m, Some saved) \<Rightarrow>
                    if Some m = channelMaterial s1 then Some saved else Some m
                | _ \<Rightarrow> outerMaterial s1),
             channelMaterial := None, savedOuterMaterial := None,
             channelShaderActive := False\<rparr>
        else s1)"

definition applyChannelShader :: "viz \<Rightarrow> viz" where
  "applyChannelShader s =
     (case outerMaterial s of
        None \<Rightarrow> s
      | Some m \<Rightarrow>
          if channelMaterial s = None \<or> Some m \<noteq> channelMaterial s then
            s\<lparr>savedOuterMaterial := Some m,
              channelMaterial := Some (ChannelMaterial (freshMaterial s)),
              outerMaterial := Some (ChannelMaterial (freshMaterial s)),
              freshMaterial := freshMaterial s + 1,
              channelShaderActive := True\<rparr>
          else s\<lparr>channelShaderActive := True\<rparr>)"

definition enableCutaway :: "viz \<Rightarrow> viz" where
  "enableCutaway s = s\<lparr>cutawayGroup := True\<rparr>"

text \<open>
  \<open>showCoolingViz(meshData, cooling, coolantData, cutaway = true)\<close>: it clears the cutaway
  and the cross-section but keeps the channel shader; only a disabled cooling
  configuration runs the full \<open>clearCoolingViz\<close>.
\<close>

definition showCoolingViz :: "viz \<Rightarrow> viz" where
  "showCoolingViz s =
     (let s1 = clearCutawayAndCrossSection s in
        if \<not> coolingEnabled s1 then clearCoolingViz s1
        else enableCutaway (applyChannelShader s1))"

definition showCrossSection :: "viz \<Rightarrow> viz" where
  "showCrossSection s =
     (let s1 = removeCrossSection s in
        if \<not> coolingEnabled s1 then s1 else s1\<lparr>crossSectionGroup := True\<rparr>)"

subsection \<open>applyVisualization\<close>

text \<open>
  The overlay entry points \<open>applyVisualization\<close> calls.  None of them writes
  \<open>vizMode\<close>, \<open>lastSimData\<close> or \<open>lastMeshData\<close>, the only variables the branches of
  \<open>applyVisualization\<close> test, so the function is modelled as the list of calls it makes,
  in the order of the source, run from left to right.
\<close>

datatype call =
    ClearHeatMap | ClearStressOverlay | ClearFlowViz | ClearCoolingViz
  | ApplyHeatMap | ApplyStressOverlay | ApplyFlowVisualization "real list" "real list option"
  | ShowCoolingViz | ShowCrossSection

fun run_call :: "call \<Rightarrow> viz \<Rightarrow> viz" where
  "run_call ClearHeatMap s = clearHeatMap s"
| "run_call ClearStressOverlay s = clearStressOverlay s"
| "run_call ClearFlowViz s = clearFlowViz s"
| "run_call ClearCoolingViz s = clearCoolingViz s"
| "run_call ApplyHeatMap s = applyHeatMap s"
| "run_call ApplyStressOverlay s = applyStressOverlay s"
| "run_call (ApplyFlowVisualization machArray coolantVelocity) s = applyFlow machArray coolantVelocity s"
| "run_call ShowCoolingViz s = showCoolingViz s"
| "run_call ShowCrossSection s = showCrossSection s"

text \<open>The clear phase: "Clear all overlays first".\<close>

definition clear_calls :: "mode \<Rightarrow> call list" where
  "clear_calls m =
     [ClearHeatMap, ClearStressOverlay, ClearFlowViz]
       @ (if m \<noteq> Cooling then [ClearCoolingViz] else [])"

text \<open>The \<open>if / else if\<close> chain on the mode and on the presence of its data.\<close>

definition apply_calls :: "mode \<Rightarrow> sim_data \<Rightarrow> bool \<Rightarrow> call list" where
  "apply_calls m d haveMesh =
     (if m = Heatmap \<and> wall_temp_inner_K d \<noteq> None then [ApplyHeatMap]
      else if m = Stress \<and> von_mises_stress_MPa d \<noteq> None then [ApplyStressOverlay]
      else if m = Flow \<and> mach d \<noteq> None then
        [ApplyFlowVisualization (the (mach d)) (coolant_velocity_m_s d)]
      else if m = Cooling \<and> haveMesh then [ShowCoolingViz, ShowCrossSection]
      else [])"

definition overlay_calls :: "viz \<Rightarrow> call list" where
  "overlay_calls s =
     (case lastSimData s of
        None \<Rightarrow> []
      | Some d \<Rightarrow> clear_calls (vizMode s) @ apply_calls (vizMode s) d (lastMeshData s \<noteq> None))"

definition applyVisualization :: "viz \<Rightarrow> viz" where
  "applyVisualization s = fold run_call (overlay_calls s) s"

subsection \<open>Event handlers\<close>

text \<open>
  \<open>onMeshUpdate\<close>: \<open>buildEngineMesh\<close> replaces the outer mesh once the outer wall geometry
  is built and the inner mesh once the inner wall geometry is built; an exception in
  between leaves the earlier assignments in place.
\<close>

definition onMeshUpdate :: "mesh_data \<Rightarrow> viz \<Rightarrow> viz" where
  "onMeshUpdate md s =
     (let s0 = s\<lparr>lastMeshData := Some md, stationCount := length (profile_2d md)\<rparr> in
        case createLatheGeometry (outer_profile_2d md) circumSegments of
          Inl e \<Rightarrow> s0
        | Inr outerG \<Rightarrow>
            (let s1 = s0\<lparr>outerMaterial := Some (MeshMaterial (freshMaterial s0)),
                        freshMaterial := freshMaterial s0 + 1\<rparr>
             in case createLatheGeometry (profile_2d md) circumSegments of
                  Inl e \<Rightarrow> s1
                | Inr innerG \<Rightarrow> s1\<lparr>innerMesh := Some \<lparr>color_attr = None, vertexColors = False\<rparr>\<rparr>))"

datatype event =
    VizButton mode
  | SimTick sim_data
  | MeshUpdate mesh_data
  | SectionSlider
  | CoolingToggle bool

fun handle :: "event \<Rightarrow> viz \<Rightarrow> viz" where
  "handle (VizButton m) s = applyVisualization (s\<lparr>vizMode := m\<rparr>)"
| "handle (SimTick d) s = applyVisualization (s\<lparr>lastSimData := Some d\<rparr>)"
| "handle (MeshUpdate md) s = onMeshUpdate md s"
| "handle SectionSlider s =
     (if vizMode s = Cooling \<and> lastMeshData s \<noteq> None \<and> lastSimData s \<noteq> None
      then showCrossSection s else s)"
| "handle (CoolingToggle b) s = s\<lparr>coolingEnabled := b\<rparr>"

definition run_events :: "event list \<Rightarrow> viz \<Rightarrow> viz" where
  "run_events es s = fold handle es s"


subsection \<open>Which overlays are active\<close>

definition thermal_active :: "viz \<Rightarrow> bool" where
  "thermal_active s = (outerMaterial s = Some HeatMaterial)"

definition stress_active :: "viz \<Rightarrow> bool" where
  "stress_active s = (outerMaterial s = Some StressMaterial)"

definition flow_active :: "viz \<Rightarrow> bool" where
  "flow_active s = (flowColorsApplied s \<or> coolantArrows s)"

fun is_channel :: "material option \<Rightarrow> bool" where
  "is_channel (Some (ChannelMaterial n)) = True"
| "is_channel _ = False"

definition cooling_active :: "viz \<Rightarrow> bool" where
  "cooling_active s =
     (channelShaderActive s \<or> cutawayGroup s \<or> crossSectionGroup s \<or> is_channel (outerMaterial s))"


text \<open>
  The invariant behind "at most one overlay is active".  Its mode-independent part: a
  heat or stress material on the wall has a captured original; a captured or saved
  material is always a material of the mesh builder; the cooling module's material, when
  present, is a channel material; and a channel material on the wall is the current one
  of the cooling module.  Its mode part: an overlay's effect is present only in its own
  mode and only once simulation data has arrived.
\<close>

fun is_mesh_material :: "material option \<Rightarrow> bool" where
  "is_mesh_material None = True"
| "is_mesh_material (Some (MeshMaterial n)) = True"
| "is_mesh_material _ = False"

definition overlay_aux :: "viz \<Rightarrow> bool" where
  "overlay_aux s =
     ((thermal_active s \<longrightarrow> heat_original s \<noteq> None)
    \<and> (stress_active s \<longrightarrow> stress_original s \<noteq> None)
    \<and> is_mesh_material (heat_original s)
    \<and> is_mesh_material (stress_original s)
    \<and> is_mesh_material (savedOuterMaterial s)
    \<and> (channelMaterial s = None \<or> is_channel (channelMaterial s))
    \<and> (is_channel (outerMaterial s) \<longrightarrow>
          channelShaderActive s \<and> channelMaterial s = outerMaterial s
          \<and> savedOuterMaterial s \<noteq> None))"

definition overlay_inv :: "viz \<Rightarrow> bool" where
  "overlay_inv s =
     ((thermal_active s \<longrightarrow> vizMode s = Heatmap)
    \<and> (stress_active s \<longrightarrow> vizMode s = Stress)
    \<and> (flow_active s \<longrightarrow> vizMode s = Flow)
    \<and> (cooling_active s \<longrightarrow> vizMode s = Cooling)
    \<and> (thermal_active s \<or> stress_active s \<or> flow_active s \<or> cooling_active s
          \<longrightarrow> lastSimData s \<noteq> None)
    \<and> overlay_aux s)"



text \<open>A two-station mesh payload and a simulation tick, used as concrete inputs below.\<close>

definition sample_mesh :: mesh_data where
  "sample_mesh =
     \<lparr>profile_2d = [(0, 0.04), (0.1, 0.02)], outer_profile_2d = [(0, 0.05), (0.1, 0.03)],
      injector_orifices = None\<rparr>"

definition sample_tick :: sim_data where
  "sample_tick =
     \<lparr>wall_temp_inner_K = Some [300, 400], von_mises_stress_MPa = Some [10, 20],
      mach = Some [0.3, 2], coolant_velocity_m_s = None\<rparr>"

text \<open>The states reached by a mesh update, a simulation tick and one mode button.\<close>

definition after_tick :: viz where
  "after_tick =
     \<lparr>vizMode = Normal, lastSimData = Some sample_tick, lastMeshData = Some sample_mesh,
      coolingEnabled = True, outerMaterial = Some (MeshMaterial 0),
      innerMesh = Some \<lparr>color_attr = None, vertexColors = False\<rparr>, stationCount = 2,
      heat_original = None, stress_original = None,
      flowColorsApplied = False, coolantArrows = False,
      channelShaderActive = False, channelMaterial = None, savedOuterMaterial = None,
      cutawayGroup = False, crossSectionGroup = False, freshMaterial = 1\<rparr>"

section \<open>Properties\<close>

subsection \<open>Rounding to binary32\<close>

lemma round_half_even_le: "y \<le> of_int n \<Longrightarrow> round_half_even y \<le> n"
  unfolding round_half_even_def Let_def
  by (auto simp: floor_le_iff le_floor_iff)

lemma round_half_even_ge: "of_int n \<le> y \<Longrightarrow> n \<le> round_half_even y"
  unfolding round_half_even_def Let_def
  by (auto simp: le_floor_iff) linarith+

lemma round_half_even_of_int: "round_half_even (of_int n) = n"
  by (simp add: round_half_even_def)

lemma float32_ulp_pos: "0 < float32_ulp x"
  by (simp add: float32_ulp_def)

lemma float32_exponent_eq:
  assumes "2 powr of_int k \<le> \<bar>x\<bar>" "\<bar>x\<bar> < 2 powr (of_int k + 1)" "- 126 \<le> k"
  shows "float32_exponent x = k"
proof -
  have x: "0 < \<bar>x\<bar>" using assms(1) by (smt (verit) powr_gt_zero)
  have "of_int k \<le> log 2 \<bar>x\<bar>"
    using assms(1) x by (simp add: le_log_iff)
  moreover have "log 2 \<bar>x\<bar> < of_int k + 1"
    using assms(2) x by (simp add: log_less_iff)
  ultimately have "\<lfloor>log 2 \<bar>x\<bar>\<rfloor> = k" by linarith
  then show ?thesis using assms(3) by (simp add: float32_exponent_def)
qed

lemma fround_binade:
  assumes "2 powr of_int k \<le> \<bar>x\<bar>" "\<bar>x\<bar> < 2 powr (of_int k + 1)" "- 126 \<le> k"
  shows "fround x = of_int (round_half_even (x / 2 powr (of_int k - 23))) * 2 powr (of_int k - 23)"
proof -
  have "x \<noteq> 0" using assms(1) by (smt (verit) powr_gt_zero)
  then show ?thesis
    by (simp add: fround_def float32_ulp_def float32_exponent_eq [OF assms])
qed

lemma fround_unit_binade:
  assumes "1 \<le> x" "x < 2"
  shows "fround x = of_int (round_half_even (x * 8388608)) / 8388608"
proof -
  have e: "(2 :: real) powr - 23 = 1 / 8388608"
    by (simp add: powr_minus_divide)
  have "fround x = of_int (round_half_even (x / 2 powr (of_int 0 - 23))) * 2 powr (of_int 0 - 23)"
    by (rule fround_binade) (use assms in simp_all)
  then have "fround x = of_int (round_half_even (x / 2 powr - 23)) * 2 powr - 23"
    by simp
  then show ?thesis unfolding e by simp
qed

lemma fround_half_binade:
  assumes "1 / 2 \<le> x" "x < 1"
  shows "fround x = of_int (round_half_even (x * 16777216)) / 16777216"
proof -
  have e: "(2 :: real) powr - 24 = 1 / 16777216"
    by (simp add: powr_minus_divide)
  have "fround x = of_int (round_half_even (x / 2 powr (of_int (- 1) - 23)))
      * 2 powr (of_int (- 1) - 23)"
    by (rule fround_binade) (use assms in \<open>simp_all add: powr_minus_divide\<close>)
  then have "fround x = of_int (round_half_even (x / 2 powr - 24)) * 2 powr - 24"
    by simp
  then show ?thesis unfolding e by simp
qed

lemma fround_one: "fround 1 = 1"
  using fround_unit_binade [of 1] by (simp add: round_half_even_def)

lemma fround_half: "fround (1 / 2) = 1 / 2"
  using fround_half_binade [of "1 / 2"] by (simp add: round_half_even_def)

lemma fround_nonneg: "0 \<le> x \<Longrightarrow> 0 \<le> fround x"
proof -
  assume x: "0 \<le> x"
  have "0 \<le> x / float32_ulp x" using x float32_ulp_pos [of x] by simp
  then have "0 \<le> round_half_even (x / float32_ulp x)"
    using round_half_even_ge [of 0 "x / float32_ulp x"] by simp
  then show ?thesis using float32_ulp_pos [of x] by (simp add: fround_def)
qed

lemma powr_split_24: "(2 :: real) powr (a + 1) = 16777216 * 2 powr (a - 23)"
proof -
  have p: "(2 :: real) powr 24 = 16777216" by simp
  have "a + 1 = 24 + (a - 23)" by simp
  then have "(2 :: real) powr (a + 1) = 2 powr (24 + (a - 23))" by (rule arg_cong)
  also have "\<dots> = 2 powr 24 * 2 powr (a - 23)" by (rule powr_add)
  finally show ?thesis unfolding p .
qed

lemma fround_le_one:
  assumes "0 \<le> x" "x \<le> 1"
  shows "fround x \<le> 1"
proof (cases "x = 0 \<or> x = 1")
  case True
  then show ?thesis using fround_one by (auto simp: fround_def)
next
  case False
  then have x: "0 < x" "x < 1" using assms by simp_all
  define e where "e = float32_exponent x"
  have "log 2 \<bar>x\<bar> < 0" using x by simp
  then have fl: "\<lfloor>log 2 \<bar>x\<bar>\<rfloor> \<le> - 1" by linarith
  then have e: "e \<le> - 1" by (simp add: e_def float32_exponent_def)
  have "log 2 x < of_int \<lfloor>log 2 \<bar>x\<bar>\<rfloor> + 1" using x by simp
  also have "\<dots> \<le> of_int e + 1" by (simp add: e_def float32_exponent_def)
  finally have "x < 2 powr (of_int e + 1)" using x by (simp add: log_less_iff)
  then have xu: "x < 16777216 * 2 powr (of_int e - 23)" unfolding powr_split_24 .
  have u: "float32_ulp x = 2 powr (of_int e - 23)" by (simp add: float32_ulp_def e_def)
  have "x / float32_ulp x \<le> of_int 16777216"
    using xu float32_ulp_pos [of x] unfolding u by (simp add: field_simps)
  then have "round_half_even (x / float32_ulp x) \<le> 16777216" by (rule round_half_even_le)
  then have "of_int (round_half_even (x / float32_ulp x)) * float32_ulp x
      \<le> 16777216 * float32_ulp x"
    using float32_ulp_pos [of x] by (simp add: mult_right_mono)
  also have "\<dots> = 2 powr (of_int e + 1)"
    unfolding u powr_split_24 ..
  also have "\<dots> \<le> 2 powr 0" using e by (intro powr_mono) simp_all
  finally show ?thesis using x by (simp add: fround_def)
qed


lemma fround_zero: "fround 0 = 0"
  by (simp add: fround_def)

lemma fround_unit_grid:
  assumes "1 \<le> y" "y \<le> 3 / 2"
  shows "\<exists>k :: int. fround y = of_int k / 8388608 \<and> 8388608 \<le> k \<and> k \<le> 12582912"
proof -
  have f: "fround y = of_int (round_half_even (y * 8388608)) / 8388608"
    using assms by (intro fround_unit_binade) simp_all
  have "of_int 8388608 \<le> y * 8388608" using assms(1) by simp
  then have lo: "8388608 \<le> round_half_even (y * 8388608)" by (rule round_half_even_ge)
  have "y * 8388608 \<le> of_int 12582912" using assms(2) by simp
  then have hi: "round_half_even (y * 8388608) \<le> 12582912" by (rule round_half_even_le)
  show ?thesis using f lo hi by blast
qed

lemma fround_fixed_below_one:
  fixes k :: int
  assumes "0 \<le> k" "k < 8388608"
  shows "fround (of_int k / 8388608) = of_int k / 8388608"
proof (cases "k = 0")
  case True
  then show ?thesis by (simp add: fround_zero)
next
  case False
  define x :: real where "x = of_int k / 8388608"
  have k1: "1 \<le> k" using assms(1) False by simp
  have x0: "0 < x" using k1 by (simp add: x_def)
  have x1: "x < 1" using assms(2) by (simp add: x_def)
  have xlo: "1 / 8388608 \<le> x" using k1 by (simp add: x_def divide_right_mono)
  define e where "e = \<lfloor>log 2 \<bar>x\<bar>\<rfloor>"
  have "log 2 \<bar>x\<bar> < 0" using x0 x1 by simp
  then have e1: "e \<le> - 1" unfolding e_def by linarith
  have "(2 :: real) powr - 23 = 1 / 8388608" by (simp add: powr_minus_divide)
  then have "2 powr - 23 \<le> x" using xlo by simp
  then have "- 23 \<le> log 2 x" using x0 by (simp add: le_log_iff)
  then have "- 23 \<le> log 2 \<bar>x\<bar>" using x0 by simp
  then have e2: "- 23 \<le> e" unfolding e_def by linarith
  have fe: "float32_exponent x = e" using e2 by (simp add: float32_exponent_def e_def)
  define n where "n = nat (- e)"
  have n: "real n = - of_int e" using e1 by (simp add: n_def)
  have p: "(2 :: real) powr (- of_int e) = 2 ^ n"
    unfolding n [symmetric] by (simp add: powr_realpow)
  have u: "float32_ulp x = 2 powr of_int e / 8388608"
  proof -
    have "float32_ulp x = 2 powr (of_int e - 23)" by (simp add: float32_ulp_def fe)
    also have "\<dots> = 2 powr of_int e / 2 powr 23" by (rule powr_diff)
    also have "(2 :: real) powr 23 = 8388608" by simp
    finally show ?thesis .
  qed
  have "x / float32_ulp x = x / (2 powr of_int e / 8388608)"
    by (simp only: u)
  also have "\<dots> = of_int k / 2 powr of_int e"
    by (simp add: x_def)
  also have "\<dots> = of_int k * 2 powr (- of_int e)"
    by (simp add: powr_minus divide_inverse)
  also have "\<dots> = of_int (k * 2 ^ n)" unfolding p by simp
  finally have q: "x / float32_ulp x = of_int (k * 2 ^ n)" .
  have "fround x = of_int (round_half_even (x / float32_ulp x)) * float32_ulp x"
    using x0 by (simp add: fround_def)
  also have "\<dots> = of_int (k * 2 ^ n) * float32_ulp x"
    unfolding q round_half_even_of_int by (rule refl)
  also have "\<dots> = x / float32_ulp x * float32_ulp x" unfolding q by (rule refl)
  also have "\<dots> = x" using float32_ulp_pos [of x] by simp
  finally show ?thesis unfolding x_def .
qed

text \<open>A draw just below 1 is stored as 1.\<close>

lemma fround_near_one: "fround (1 - 1 / 1073741824) = 1"
  using fround_half_binade [of "1 - 1 / 1073741824"] by (simp add: round_half_even_def Let_def)

subsection \<open>Revolved surfaces\<close>

lemma station_at_ok: "i < length p \<Longrightarrow> station_at p (int i) = Inr (p ! i)"
  by (simp add: station_at_def)

lemma lathe_tangent_fwd:
  assumes "i + 1 < length p"
  shows "lathe_tangent p i = Inr (fst (p ! (i+1)) - fst (p ! i), snd (p ! (i+1)) - snd (p ! i))"
proof -
  obtain x r where xr: "p ! i = (x, r)" by (cases "p ! i")
  obtain x1 r1 where xr1: "p ! (i + 1) = (x1, r1)" by (cases "p ! (i + 1)")
  have a: "station_at p (int i) = Inr (x, r)"
    using assms xr by (simp add: station_at_ok)
  have "station_at p (int (i + 1)) = Inr (p ! (i + 1))"
    using assms by (rule station_at_ok)
  then have b: "station_at p (int i + 1) = Inr (x1, r1)"
    using xr1 by (simp add: add.commute)
  have c: "int i < int (length p) - 1" using assms by linarith
  have "lathe_tangent p i = Inr (x1 - x, r1 - r)"
    unfolding lathe_tangent_def a b if_P [OF c] by simp
  then show ?thesis using xr xr1 by simp
qed

lemma lathe_tangent_bwd:
  assumes "0 < i" "i + 1 = length p"
  shows "lathe_tangent p i = Inr (fst (p ! i) - fst (p ! (i - 1)), snd (p ! i) - snd (p ! (i - 1)))"
proof -
  obtain x r where xr: "p ! i = (x, r)" by (cases "p ! i")
  obtain x0 r0 where xr0: "p ! (i - 1) = (x0, r0)" by (cases "p ! (i - 1)")
  have a: "station_at p (int i) = Inr (x, r)"
    using assms xr by (simp add: station_at_ok)
  have "station_at p (int (i - 1)) = Inr (p ! (i - 1))"
    using assms by (intro station_at_ok) linarith
  moreover have "int (i - 1) = int i - 1" using assms by linarith
  ultimately have b: "station_at p (int i - 1) = Inr (x0, r0)"
    using xr0 by simp
  have c: "\<not> int i < int (length p) - 1" using assms by linarith
  have "lathe_tangent p i = Inr (x - x0, r - r0)"
    unfolding lathe_tangent_def a b if_not_P [OF c] by simp
  then show ?thesis using xr xr0 by simp
qed

text \<open>A profile of one station: the backward difference reads index -1.\<close>
lemma lathe_tangent_single: "lathe_tangent [s] 0 = Inl TypeError"
  by (simp add: lathe_tangent_def station_at_def split: prod.splits)

lemma lathe_tangent_defined:
  assumes "2 \<le> length p" "i < length p"
  shows "\<exists>dx dr. lathe_tangent p i = Inr (dx, dr)"
proof (cases "i + 1 < length p")
  case True
  then show ?thesis by (simp add: lathe_tangent_fwd)
next
  case False
  then have "0 < i" "i + 1 = length p" using assms by linarith+
  then show ?thesis by (simp add: lathe_tangent_bwd)
qed

lemma lathe_ring_defined:
  assumes "2 \<le> length p" "i < length p"
  shows "\<exists>ring. lathe_ring p nCirc i = Inr ring \<and> length ring = nCirc + 1"
proof -
  obtain dx dr where t: "lathe_tangent p i = Inr (dx, dr)"
    using lathe_tangent_defined [OF assms] by blast
  obtain x r where xr: "p ! i = (x, r)" by (cases "p ! i")
  have a: "station_at p (int i) = Inr (x, r)"
    using assms xr by (simp add: station_at_ok)
  show ?thesis
    unfolding lathe_ring_def a t by (simp add: Let_def)
qed

lemma lathe_rings_defined:
  assumes "2 \<le> length p" "\<forall>i \<in> set js. i < length p"
  shows "\<exists>vs. lathe_rings p nCirc js = Inr vs \<and> length vs = length js * (nCirc + 1)"
  using assms(2)
proof (induction js)
  case Nil
  then show ?case by simp
next
  case (Cons i js)
  obtain ring where r: "lathe_ring p nCirc i = Inr ring" "length ring = nCirc + 1"
    using lathe_ring_defined [OF assms(1), of i nCirc] Cons.prems by auto
  obtain vs where v: "lathe_rings p nCirc js = Inr vs" "length vs = length js * (nCirc + 1)"
    using Cons by auto
  show ?case by (simp add: r v)
qed




























subsection \<open>Profiles with fewer than two stations\<close>

lemma createLatheGeometry_single: "createLatheGeometry [s] nCirc = Inl TypeError"
proof -
  have "lathe_ring [s] nCirc 0 = Inl TypeError"
    by (simp add: lathe_ring_def lathe_tangent_single station_at_def split: prod.splits)
  then show ?thesis by (simp add: createLatheGeometry_def)
qed

lemma createLatheGeometry_empty:
  "createLatheGeometry [] nCirc = Inr (geometry_of [] [])"
  by (simp add: createLatheGeometry_def lathe_indices_def)

lemma error_is_TypeError: "(e :: error) = TypeError"
  by (cases e) simp

lemma buildEngineMesh_short_profile:
  assumes "length (profile_2d meshData) < 2"
  shows "buildEngineMesh meshData = Inl TypeError"
proof (cases "profile_2d meshData")
  case Nil
  then have "station_at (profile_2d meshData) 0 = Inl TypeError"
    by (simp add: station_at_def)
  then show ?thesis
    by (auto simp: buildEngineMesh_def Let_def error_is_TypeError split: sum.splits)
next
  case (Cons s rest)
  then have "profile_2d meshData = [s]" using assms by simp
  then have "createLatheGeometry (profile_2d meshData) circumSegments = Inl TypeError"
    by (simp add: createLatheGeometry_single)
  then show ?thesis
    by (auto simp: buildEngineMesh_def Let_def error_is_TypeError split: sum.splits)
qed

text \<open>
  C8.  A mesh payload with a single station makes \<open>createLatheGeometry\<close> read
  \<open>profile2d[-1]\<close> and throw; \<open>buildEngineMesh\<close> throws with it.  An empty profile
  passes \<open>createLatheGeometry\<close> (no vertices, no triangles) but \<open>buildEngineMesh\<close> still
  throws when the end caps read \<open>profile2d[0]\<close>.
\<close>

theorem buildEngineMesh_throws_below_two_stations:
  "createLatheGeometry [(0, 0.04)] circumSegments = Inl TypeError
   \<and> buildEngineMesh \<lparr>profile_2d = [(0, 0.04)], outer_profile_2d = [(0, 0.05)],
                       injector_orifices = None\<rparr> = Inl TypeError
   \<and> createLatheGeometry [] circumSegments = Inr (geometry_of [] [])
   \<and> buildEngineMesh \<lparr>profile_2d = [], outer_profile_2d = [], injector_orifices = None\<rparr>
       = Inl TypeError"
  by (simp add: createLatheGeometry_single createLatheGeometry_empty buildEngineMesh_short_profile)

subsection \<open>Injector grid resolution\<close>

lemma minOrificeRadius_Cons:
  "minOrificeRadius R (orf # orfs) = minOrificeRadius (min R (o_radius orf)) orfs"
  by (simp add: minOrificeRadius_def min_def)

lemma minOrificeRadius_le_face: "minOrificeRadius R orfs \<le> R"
proof (induction orfs arbitrary: R)
  case Nil
  then show ?case by (simp add: minOrificeRadius_def)
next
  case (Cons orf orfs)
  have "minOrificeRadius (min R (o_radius orf)) orfs \<le> min R (o_radius orf)"
    by (rule Cons.IH)
  then show ?case by (simp add: minOrificeRadius_Cons)
qed

lemma minOrificeRadius_le: "orf \<in> set orfs \<Longrightarrow> minOrificeRadius R orfs \<le> o_radius orf"
proof (induction orfs arbitrary: R)
  case Nil
  then show ?case by simp
next
  case (Cons a orfs)
  show ?case
  proof (cases "orf = a")
    case True
    have "minOrificeRadius (min R (o_radius a)) orfs \<le> min R (o_radius a)"
      by (rule minOrificeRadius_le_face)
    then show ?thesis using True by (simp add: minOrificeRadius_Cons)
  next
    case False
    then have "orf \<in> set orfs" using Cons.prems by simp
    then show ?thesis using Cons.IH by (simp add: minOrificeRadius_Cons)
  qed
qed

lemma minOrificeRadius_pos:
  "0 < R \<Longrightarrow> \<forall>orf \<in> set orfs. 0 < o_radius orf \<Longrightarrow> 0 < minOrificeRadius R orfs"
proof (induction orfs arbitrary: R)
  case Nil
  then show ?case by (simp add: minOrificeRadius_def)
next
  case (Cons a orfs)
  then have "0 < min R (o_radius a)" by simp
  then show ?case using Cons by (simp add: minOrificeRadius_Cons)
qed

lemma nRadial_finite:
  assumes "0 < minOrificeRadius R orfs"
  shows "nRadial R orfs = Fin (real_of_int (min 120 (max 40 \<lceil>R / minOrificeRadius R orfs\<rceil>)))"
  using assms by (simp add: nRadial_def js_div_def Let_def)

lemma nAngular_finite:
  assumes "0 < minOrificeRadius R orfs"
  shows "nAngular R orfs segments =
     Fin (real_of_int (min 512 (max (int segments) \<lceil>2 * pi * R / minOrificeRadius R orfs\<rceil>)))"
  using assms by (simp add: nAngular_def js_div_def Let_def)

text \<open>A cell count that reaches the ceiling of \<open>L / m\<close> makes cells of size at most \<open>m\<close>.\<close>
lemma cell_size_le:
  fixes L m :: real and n :: int
  assumes "0 < m" "0 < L" "\<lceil>L / m\<rceil> \<le> n"
  shows "L / real_of_int n \<le> m"
proof -
  have "L / m \<le> real_of_int n" using assms(3) by (simp add: ceiling_le_iff)
  moreover have "0 < L / m" using assms by simp
  ultimately have n: "0 < real_of_int n" by linarith
  have "L \<le> real_of_int n * m"
    using \<open>L / m \<le> real_of_int n\<close> assms(1) by (simp add: pos_divide_le_eq)
  then show ?thesis using n by (simp add: pos_divide_le_eq mult.commute)
qed

lemma capped_cell_size_le:
  fixes L m r :: real and lo cap :: int
  assumes "0 < m" "0 < L" "m \<le> r" "0 < cap" "L / r \<le> real_of_int cap"
  shows "L / real_of_int (min cap (max lo \<lceil>L / m\<rceil>)) \<le> r"
proof (cases "cap \<le> max lo \<lceil>L / m\<rceil>")
  case True
  then have "min cap (max lo \<lceil>L / m\<rceil>) = cap" by simp
  moreover have "L / real_of_int cap \<le> r"
  proof -
    have "0 < r" using assms by linarith
    then have "L \<le> real_of_int cap * r" using assms(5) by (simp add: pos_divide_le_eq)
    then show ?thesis using assms(4) by (simp add: pos_divide_le_eq mult.commute)
  qed
  ultimately show ?thesis by simp
next
  case False
  then have "min cap (max lo \<lceil>L / m\<rceil>) = max lo \<lceil>L / m\<rceil>" by simp
  moreover have "L / real_of_int (max lo \<lceil>L / m\<rceil>) \<le> m"
    using assms by (intro cell_size_le) simp_all
  ultimately show ?thesis using assms(3) by simp
qed

lemma cell_center_dist:
  assumes "cell_center R nR nA i j = (cy, cz)"
  shows "cy * cy + cz * cz = ((grid_radius R nR i + grid_radius R nR (i + 1)) / 2)\<^sup>2"
proof -
  define rm where "rm = (grid_radius R nR i + grid_radius R nR (i + 1)) / 2"
  define tm where "tm = (grid_theta nA j + grid_theta nA (j + 1)) / 2"
  have "cell_center R nR nA i j = (rm * cos tm, rm * sin tm)"
    unfolding cell_center_def Let_def rm_def tm_def by (rule refl)
  then have cy: "cy = rm * cos tm" and cz: "cz = rm * sin tm"
    using assms by (simp_all only: prod.inject)
  have "(rm * cos tm) * (rm * cos tm) + (rm * sin tm) * (rm * sin tm)
          = rm * rm * (cos tm * cos tm + sin tm * sin tm)"
    by (simp only: distrib_left mult.assoc mult.left_commute)
  also have "\<dots> = rm\<^sup>2"
    by (simp only: sin_cos_squared_add3 mult_1_right power2_eq_square)
  finally show ?thesis unfolding cy cz rm_def .
qed

lemma tiny_orifice_outside_every_cell:
  "\<not> inside_orifice (cell_center 1 120 nA i j)
       \<lparr>o_y = 0, o_z = 0, o_radius = 0.001, o_type = ''fuel''\<rparr>"
proof -
  obtain cy cz where c: "cell_center 1 120 nA i j = (cy, cz)"
    by (cases "cell_center 1 120 nA i j")
  define rm where "rm = (grid_radius 1 120 i + grid_radius 1 120 (i + 1)) / 2"
  have "1 / 240 \<le> rm" by (simp add: rm_def grid_radius_def field_simps)
  then have "(1 / 240)\<^sup>2 \<le> rm\<^sup>2" by (intro power_mono) simp_all
  then have "\<not> rm\<^sup>2 < 0.001 * 0.001" by (simp add: power2_eq_square)
  moreover have "cy * cy + cz * cz = rm\<^sup>2"
    unfolding rm_def using c by (rule cell_center_dist)
  ultimately show ?thesis by (simp add: inside_orifice_def c Let_def)
qed

lemma nearest_cell_centre:
  fixes rho L :: real and n :: nat
  assumes "0 \<le> rho" "rho \<le> L" "0 < n" "0 < L"
  shows "\<exists>i<n. \<bar>rho - (real i + 1 / 2) * (L / real n)\<bar> \<le> L / real n / 2"
proof -
  define d where "d = L / real n"
  have d: "0 < d" using assms(3,4) by (simp add: d_def)
  have nd: "real n * d = L" using assms(3) by (simp add: d_def)
  show ?thesis
  proof (cases "rho < L")
    case True
    define k where "k = nat \<lfloor>rho / d\<rfloor>"
    have q: "0 \<le> rho / d" using assms(1) d by simp
    then have kf: "real k = of_int \<lfloor>rho / d\<rfloor>" by (simp add: k_def)
    have lo: "real k \<le> rho / d" and hi: "rho / d < real k + 1"
      unfolding kf by linarith+
    have lo': "real k * d \<le> rho" using lo d by (simp add: pos_le_divide_eq)
    have hi': "rho < (real k + 1) * d" using hi d by (simp add: pos_divide_less_eq)
    have "real k * d < real n * d" using lo' True nd by linarith
    then have "k < n" using d by simp
    moreover have "\<bar>rho - (real k + 1 / 2) * d\<bar> \<le> d / 2"
    proof -
      have "(real k + 1 / 2) * d = real k * d + d / 2" "(real k + 1) * d = real k * d + d"
        by (simp_all add: algebra_simps)
      then show ?thesis using lo' hi' by linarith
    qed
    ultimately show ?thesis unfolding d_def by blast
  next
    case False
    then have r: "rho = L" using assms(2) by simp
    have "n - 1 < n" using assms(3) by simp
    moreover have "real (n - 1) = real n - 1" using assms(3) by (simp add: of_nat_diff)
    then have "rho - (real (n - 1) + 1 / 2) * d = d / 2"
      using nd r by (simp add: algebra_simps)
    then have "\<bar>rho - (real (n - 1) + 1 / 2) * d\<bar> \<le> d / 2" using d by simp
    ultimately show ?thesis unfolding d_def by blast
  qed
qed

lemma one_minus_cos_le: "1 - cos x \<le> x\<^sup>2 / 2" for x :: real
proof -
  have "cos x = cos (2 * (x / 2))" by simp
  also have "\<dots> = 1 - 2 * (sin (x / 2))\<^sup>2" by (rule cos_double_sin)
  finally have c: "1 - cos x = 2 * (sin (x / 2))\<^sup>2" by simp
  have "\<bar>sin (x / 2)\<bar> \<le> \<bar>x / 2\<bar>" by (rule abs_sin_x_le_abs_x)
  then have "(sin (x / 2))\<^sup>2 \<le> (x / 2)\<^sup>2" by (simp add: abs_le_square_iff [symmetric])
  then show ?thesis unfolding c by (simp add: power2_eq_square)
qed

lemma polar_distance_alg:
  fixes a rho c s c' s' :: real
  assumes "c * c + s * s = 1" "c' * c' + s' * s' = 1"
  shows "(a * c - rho * c') * (a * c - rho * c') + (a * s - rho * s') * (a * s - rho * s')
       = (a - rho)\<^sup>2 + 2 * a * rho * (1 - (c * c' + s * s'))"
proof -
  have "(a * c - rho * c') * (a * c - rho * c') + (a * s - rho * s') * (a * s - rho * s')
       - ((a - rho)\<^sup>2 + 2 * a * rho * (1 - (c * c' + s * s')))
      = a * a * (c * c + s * s - 1) + rho * rho * (c' * c' + s' * s' - 1)"
    by (simp add: algebra_simps power2_eq_square)
  also have "\<dots> = 0" unfolding assms by simp
  finally show ?thesis by simp
qed

lemma polar_distance:
  fixes a rho t phi :: real
  shows "(a * cos t - rho * cos phi) * (a * cos t - rho * cos phi)
       + (a * sin t - rho * sin phi) * (a * sin t - rho * sin phi)
       = (a - rho)\<^sup>2 + 2 * a * rho * (1 - cos (t - phi))"
  unfolding cos_diff
  by (rule polar_distance_alg) (rule sin_cos_squared_add3)+

lemma polar_form:
  fixes y z R :: real
  assumes "y * y + z * z \<le> R * R" "0 < R"
  shows "\<exists>rho phi. 0 \<le> rho \<and> rho \<le> R \<and> 0 \<le> phi \<and> phi \<le> 2 * pi
           \<and> y = rho * cos phi \<and> z = rho * sin phi"
proof (cases "y = 0 \<and> z = 0")
  case True
  then have "0 \<le> (0 :: real) \<and> 0 \<le> R \<and> 0 \<le> (0 :: real) \<and> (0 :: real) \<le> 2 * pi
      \<and> y = 0 * cos 0 \<and> z = 0 * sin 0"
    using assms(2) by simp
  then show ?thesis by blast
next
  case False
  define rho where "rho = sqrt (y * y + z * z)"
  have pos: "0 < y * y + z * z"
    using False by (metis not_sum_squares_lt_zero sum_squares_eq_zero_iff less_le not_le)
  then have rho: "0 < rho" by (simp add: rho_def)
  have sq: "rho * rho = y * y + z * z"
    using pos by (simp add: rho_def)
  have "rho * rho \<le> R * R" using sq assms(1) by simp
  then have le: "rho \<le> R"
    using rho assms(2) by (metis abs_of_pos abs_le_square_iff power2_eq_square less_imp_le)
  have "(y / rho)\<^sup>2 + (z / rho)\<^sup>2 = (y * y + z * z) / (rho * rho)"
    by (simp add: power2_eq_square add_divide_distrib)
  also have "\<dots> = 1" unfolding sq [symmetric] using rho by simp
  finally obtain phi where phi: "0 \<le> phi" "phi < 2 * pi" "y / rho = cos phi" "z / rho = sin phi"
    using sincos_total_2pi by blast
  have "y = rho * cos phi" "z = rho * sin phi"
    using phi(3,4) rho by (simp_all add: field_simps)
  then show ?thesis using rho le phi(1,2) by (intro exI [of _ rho] exI [of _ phi]) simp
qed


lemma cell_center_polar:
  assumes "0 < nR" "0 < nA"
  shows "cell_center R nR nA i j =
     ((real i + 1 / 2) * (R / real nR) * cos ((real j + 1 / 2) * (2 * pi / real nA)),
      (real i + 1 / 2) * (R / real nR) * sin ((real j + 1 / 2) * (2 * pi / real nA)))"
proof -
  have r: "(grid_radius R nR i + grid_radius R nR (i + 1)) / 2 = (real i + 1 / 2) * (R / real nR)"
    using assms(1) by (simp add: grid_radius_def field_simps)
  have t: "(grid_theta nA j + grid_theta nA (j + 1)) / 2 = (real j + 1 / 2) * (2 * pi / real nA)"
    using assms(2) by (simp add: grid_theta_def field_simps)
  show ?thesis unfolding cell_center_def Let_def r t by (rule refl)
qed

lemma orifice_contains_cell_centre:
  fixes R :: real and nR nA :: nat
  assumes R: "0 < R" and nR: "0 < nR" and nA: "0 < nA"
    and on: "o_y orf * o_y orf + o_z orf * o_z orf \<le> R * R"
    and dr: "R / real nR \<le> o_radius orf" and arc: "2 * pi * R / real nA \<le> o_radius orf"
  shows "\<exists>i<nR. \<exists>j<nA. inside_orifice (cell_center R nR nA i j) orf"
proof -
  obtain rho phi where rho: "0 \<le> rho" "rho \<le> R" and phi: "0 \<le> phi" "phi \<le> 2 * pi"
    and y: "o_y orf = rho * cos phi" and z: "o_z orf = rho * sin phi"
    using polar_form [OF on R] by blast
  obtain i where i: "i < nR" and di: "\<bar>rho - (real i + 1 / 2) * (R / real nR)\<bar> \<le> R / real nR / 2"
    using nearest_cell_centre [OF rho nR R] by blast
  have "0 < 2 * pi" by simp
  from nearest_cell_centre [OF phi nA this]
  obtain j where j: "j < nA"
    and dj: "\<bar>phi - (real j + 1 / 2) * (2 * pi / real nA)\<bar> \<le> 2 * pi / real nA / 2"
    by blast
  define a where "a = (real i + 1 / 2) * (R / real nR)"
  define t where "t = (real j + 1 / 2) * (2 * pi / real nA)"
  define ro where "ro = o_radius orf"
  have step: "0 < R / real nR" using R nR by simp
  then have ro: "0 < ro" using dr by (simp add: ro_def)
  have a0: "0 \<le> a"
    unfolding a_def using step by (intro mult_nonneg_nonneg) simp_all
  have aR: "a \<le> R"
  proof -
    have "real i + 1 / 2 \<le> real nR" using i by linarith
    then have "a \<le> real nR * (R / real nR)"
      unfolding a_def using step by (intro mult_right_mono) simp_all
    then show ?thesis using nR by simp
  qed
  have d1: "(a - rho)\<^sup>2 \<le> (ro / 2)\<^sup>2"
  proof -
    have "\<bar>a - rho\<bar> \<le> R / real nR / 2" using di unfolding a_def by (simp add: abs_minus_commute)
    also have "\<dots> \<le> ro / 2" using dr by (simp add: ro_def)
    finally have "\<bar>a - rho\<bar> \<le> \<bar>ro / 2\<bar>" using ro by simp
    then show ?thesis by (simp only: abs_le_square_iff)
  qed
  have d2: "2 * a * rho * (1 - cos (t - phi)) \<le> (ro / 2)\<^sup>2"
  proof -
    have pn: "0 \<le> pi / real nA" using nA by simp
    have "\<bar>t - phi\<bar> \<le> pi / real nA"
      using dj unfolding t_def by (simp add: abs_minus_commute)
    then have "\<bar>t - phi\<bar> \<le> \<bar>pi / real nA\<bar>" using pn by simp
    then have tp: "(t - phi)\<^sup>2 \<le> (pi / real nA)\<^sup>2" by (simp only: abs_le_square_iff)
    have ar: "a * rho \<le> R * R" using a0 aR rho R by (intro mult_mono) simp_all
    have ar0: "0 \<le> a * rho" using a0 rho by simp
    have "2 * a * rho * (1 - cos (t - phi)) = (a * rho) * (2 * (1 - cos (t - phi)))" by simp
    also have "\<dots> \<le> (a * rho) * (t - phi)\<^sup>2"
      using one_minus_cos_le [of "t - phi"] ar0 by (intro mult_left_mono) simp_all
    also have "\<dots> \<le> (R * R) * (pi / real nA)\<^sup>2"
      by (rule mult_mono [OF ar tp]) (use R in simp_all)
    also have "\<dots> = (2 * pi * R / real nA / 2)\<^sup>2"
      by (simp add: power2_eq_square)
    also have "\<dots> \<le> (ro / 2)\<^sup>2"
    proof -
      have "0 \<le> 2 * pi * R / real nA / 2" using R nA by simp
      moreover have "2 * pi * R / real nA / 2 \<le> ro / 2"
        using arc unfolding ro_def by (rule divide_right_mono) simp
      ultimately show ?thesis by (intro power_mono)
    qed
    finally show ?thesis .
  qed
  have "(a * cos t - rho * cos phi) * (a * cos t - rho * cos phi)
       + (a * sin t - rho * sin phi) * (a * sin t - rho * sin phi)
      = (a - rho)\<^sup>2 + 2 * a * rho * (1 - cos (t - phi))"
    by (rule polar_distance)
  also have "\<dots> \<le> (ro / 2)\<^sup>2 + (ro / 2)\<^sup>2" using d1 d2 by (rule add_mono)
  also have "\<dots> = ro * ro / 2" by (simp add: power2_eq_square)
  also have "\<dots> < ro * ro" using ro by simp
  finally have "inside_orifice (a * cos t, a * sin t) orf"
    by (simp add: inside_orifice_def Let_def y z ro_def)
  then have "inside_orifice (cell_center R nR nA i j) orf"
    unfolding cell_center_polar [OF nR nA] a_def t_def .
  then show ?thesis using i j by blast
qed


lemma sum_list_le_strict:
  fixes f g :: "'a \<Rightarrow> nat"
  assumes "\<forall>x \<in> set xs. f x \<le> g x"
  shows "sum_list (map f xs) \<le> sum_list (map g xs)"
    and "\<exists>x \<in> set xs. f x < g x \<Longrightarrow> sum_list (map f xs) < sum_list (map g xs)"
proof -
  show le: "sum_list (map f xs) \<le> sum_list (map g xs)"
    using assms by (induction xs) (auto intro: add_mono)
  show "sum_list (map f xs) < sum_list (map g xs)" if "\<exists>x \<in> set xs. f x < g x"
    using assms that
  proof (induction xs)
    case Nil
    then show ?case by simp
  next
    case (Cons a xs)
    have rest: "sum_list (map f xs) \<le> sum_list (map g xs)"
      using Cons.prems(1) by (induction xs) (auto intro: add_mono)
    show ?case
    proof (cases "f a < g a")
      case True
      then show ?thesis using rest by simp
    next
      case False
      then have "\<exists>x \<in> set xs. f x < g x" using Cons.prems(2) by auto
      moreover have "\<forall>x \<in> set xs. f x \<le> g x" using Cons.prems(1) by simp
      ultimately have "sum_list (map f xs) < sum_list (map g xs)" by (rule Cons.IH [rotated])
      moreover have "f a \<le> g a" using Cons.prems(1) by simp
      ultimately show ?thesis by simp
    qed
  qed
qed

lemma grid_cell_length: "length (grid_cell R orfs nR nA i j) \<le> (if i = 0 then 1 else 2)"
  by (simp add: grid_cell_def Let_def)

lemma grid_row_length:
  "length (concat (map (grid_cell R orfs nR nA i) [0..<nA])) \<le> (if i = 0 then 1 else 2) * nA"
  and grid_row_length_hole:
  "j < nA \<Longrightarrow> grid_cell R orfs nR nA i j = [] \<Longrightarrow>
     length (concat (map (grid_cell R orfs nR nA i) [0..<nA])) < (if i = 0 then 1 else 2) * nA"
proof -
  let ?f = "\<lambda>j. length (grid_cell R orfs nR nA i j)"
  let ?g = "\<lambda>j :: nat. if i = 0 then 1 else 2 :: nat"
  have len: "length (concat (map (grid_cell R orfs nR nA i) [0..<nA])) = sum_list (map ?f [0..<nA])"
    by (simp add: length_concat comp_def)
  have full: "sum_list (map ?g [0..<nA]) = (if i = 0 then 1 else 2) * nA"
    by (induction nA) simp_all
  have le: "\<forall>j \<in> set [0..<nA]. ?f j \<le> ?g j"
    using grid_cell_length [of R orfs nR nA i] by simp
  show "length (concat (map (grid_cell R orfs nR nA i) [0..<nA])) \<le> (if i = 0 then 1 else 2) * nA"
    unfolding len full [symmetric] using le by (rule sum_list_le_strict(1))
  show "length (concat (map (grid_cell R orfs nR nA i) [0..<nA])) < (if i = 0 then 1 else 2) * nA"
    if "j < nA" "grid_cell R orfs nR nA i j = []"
  proof -
    have "?f j < ?g j" using that(2) by simp
    moreover have "j \<in> set [0..<nA]" using that(1) by simp
    ultimately have "\<exists>j \<in> set [0..<nA]. ?f j < ?g j" by (rule bexI)
    then show ?thesis
      unfolding len full [symmetric] using le by (intro sum_list_le_strict(2))
  qed
qed

lemma full_grid_count: "sum_list (map (\<lambda>i. (if i = 0 then 1 else 2) * nA) [0..<nR]) = (2 * nR - 1) * nA"
  for nA nR :: nat
proof (induction nR)
  case 0
  then show ?case by simp
next
  case (Suc n)
  show ?case
  proof (cases n)
    case 0
    then show ?thesis by simp
  next
    case (Suc m)
    then show ?thesis using Suc.IH by (simp add: algebra_simps)
  qed
qed

lemma grid_face_count:
  "triangle_count (grid_face x R orfs nR nA) \<le> (2 * nR - 1) * nA"
  and grid_face_count_hole:
  "i < nR \<Longrightarrow> j < nA \<Longrightarrow> grid_cell R orfs nR nA i j = [] \<Longrightarrow>
     triangle_count (grid_face x R orfs nR nA) < (2 * nR - 1) * nA"
proof -
  let ?f = "\<lambda>i. length (concat (map (grid_cell R orfs nR nA i) [0..<nA]))"
  let ?g = "\<lambda>i. (if i = 0 then 1 else 2) * nA"
  have len: "triangle_count (grid_face x R orfs nR nA) = sum_list (map ?f [0..<nR])"
    by (simp add: triangle_count_def grid_face_def geometry_of_def length_concat comp_def)
  have le: "\<forall>i \<in> set [0..<nR]. ?f i \<le> ?g i"
    using grid_row_length [of R orfs nR nA] by simp
  show "triangle_count (grid_face x R orfs nR nA) \<le> (2 * nR - 1) * nA"
    unfolding len full_grid_count [symmetric] using le by (rule sum_list_le_strict(1))
  show "triangle_count (grid_face x R orfs nR nA) < (2 * nR - 1) * nA"
    if "i < nR" "j < nA" "grid_cell R orfs nR nA i j = []"
  proof -
    have "?f i < ?g i" using that(2,3) by (rule grid_row_length_hole)
    moreover have "i \<in> set [0..<nR]" using that(1) by simp
    ultimately have "\<exists>i \<in> set [0..<nR]. ?f i < ?g i" by (rule bexI)
    then show ?thesis
      unfolding len full_grid_count [symmetric] using le by (intro sum_list_le_strict(2))
  qed
qed

lemma grid_face_full_count:
  "triangle_count (grid_face x R [] nR nA) = (2 * nR - 1) * nA"
proof -
  have c: "length (grid_cell R [] nR nA i j) = (if i = 0 then 1 else 2)" for i j
    by (simp add: grid_cell_def Let_def)
  have r: "length (concat (map (grid_cell R [] nR nA i) [0..<n])) = (if i = 0 then 1 else 2) * n" for i n
    by (induction n) (simp_all add: c)
  have "triangle_count (grid_face x R [] nR nA)
      = sum_list (map (\<lambda>i. length (concat (map (grid_cell R [] nR nA i) [0..<nA]))) [0..<nR])"
    by (simp add: triangle_count_def grid_face_def geometry_of_def length_concat comp_def)
  also have "\<dots> = sum_list (map (\<lambda>i. (if i = 0 then 1 else 2) * nA) [0..<nR])"
    unfolding r by (rule refl)
  finally show ?thesis unfolding full_grid_count .
qed


lemma far_orifice_outside_every_cell:
  assumes "i < 40"
  shows "\<not> inside_orifice (cell_center 1 40 nA i j)
       \<lparr>o_y = 5, o_z = 0, o_radius = 0.5, o_type = ''fuel''\<rparr>"
proof -
  obtain cy cz where c: "cell_center 1 40 nA i j = (cy, cz)"
    by (cases "cell_center 1 40 nA i j")
  define rm where "rm = (grid_radius 1 40 i + grid_radius 1 40 (i + 1)) / 2"
  have "real i + 1 \<le> 40" using assms by linarith
  then have rm: "0 \<le> rm" "rm \<le> 1" by (simp_all add: rm_def grid_radius_def field_simps)
  have d: "cy * cy + cz * cz = rm\<^sup>2"
    unfolding rm_def using c by (rule cell_center_dist)
  have "rm\<^sup>2 \<le> 1" using rm by (simp add: power_le_one)
  moreover have "cy * cy \<le> cy * cy + cz * cz" by simp
  ultimately have "cy\<^sup>2 \<le> 1\<^sup>2" using d by (simp add: power2_eq_square)
  then have "\<bar>cy\<bar> \<le> 1" by (simp only: abs_le_square_iff [symmetric] abs_one)
  then have "4 \<le> 5 - cy" by linarith
  then have "4 * 4 \<le> (5 - cy) * (5 - cy)" by (intro mult_mono) simp_all
  moreover have "(cy - 5) * (cy - 5) = (5 - cy) * (5 - cy)" by (simp add: algebra_simps)
  moreover have "0 \<le> cz * cz" by simp
  ultimately have "\<not> (cy - 5) * (cy - 5) + cz * cz < 0.5 * 0.5" by linarith
  then show ?thesis by (simp add: inside_orifice_def c Let_def)
qed


text \<open>
  Claim C9 (injector grid resolution), as the code implements it.  For a non-empty
  orifice list with positive radii and a positive face radius, the builder picks a whole
  number of radial divisions in \<open>[40, 120]\<close> and of angular divisions at most 512 (at least
  \<open>segments\<close> when \<open>segments \<le> 512\<close>), and the face is the polar grid of that resolution.
  The radial cell size \<open>faceRadius / nRadial\<close> is no larger than the radius of every
  orifice whose radius is at least \<open>faceRadius / 120\<close>, and the rim arc
  \<open>2 \<pi> faceRadius / nAngular\<close> is no larger than the radius of every orifice whose radius
  is at least \<open>2 \<pi> faceRadius / 512\<close>.  Every orifice that meets both size conditions and
  whose centre lies on the face contains the centre of a grid cell; that cell is left out
  of the index buffer, so the face has fewer triangles than the full grid: the orifice
  cuts a hole.
\<close>

theorem injector_grid_cell_size:
  assumes "orifices \<noteq> []" and "\<forall>orf \<in> set orifices. 0 < o_radius orf" and "0 < faceRadius"
  shows "\<exists>nR nA :: nat.
           nRadial faceRadius orifices = Fin (real nR)
         \<and> nAngular faceRadius orifices segments = Fin (real nA)
         \<and> fst (createInjectorFaceWithOrifices x faceRadius orifices segments)
             = grid_face x faceRadius orifices nR nA
         \<and> 40 \<le> nR \<and> nR \<le> 120 \<and> 0 < nA \<and> nA \<le> 512
         \<and> (segments \<le> 512 \<longrightarrow> segments \<le> nA)
         \<and> (\<forall>orf \<in> set orifices.
               (faceRadius / o_radius orf \<le> 120 \<longrightarrow>
                  faceRadius / real nR \<le> o_radius orf)
             \<and> (2 * pi * faceRadius / o_radius orf \<le> 512 \<longrightarrow>
                  2 * pi * faceRadius / real nA \<le> o_radius orf)
             \<and> (faceRadius / o_radius orf \<le> 120
                 \<and> 2 * pi * faceRadius / o_radius orf \<le> 512
                 \<and> o_y orf * o_y orf + o_z orf * o_z orf \<le> faceRadius * faceRadius \<longrightarrow>
                  (\<exists>i<nR. \<exists>j<nA.
                      inside_orifice (cell_center faceRadius nR nA i j) orf
                    \<and> grid_cell faceRadius orifices nR nA i j = [])
                \<and> triangle_count (fst (createInjectorFaceWithOrifices x faceRadius orifices segments))
                    < (2 * nR - 1) * nA))"
proof -
  define m where "m = minOrificeRadius faceRadius orifices"
  have m: "0 < m"
    unfolding m_def using assms(2,3) by (intro minOrificeRadius_pos)
  define nRi where "nRi = min 120 (max 40 \<lceil>faceRadius / m\<rceil>)"
  define nAi where "nAi = min 512 (max (int segments) \<lceil>2 * pi * faceRadius / m\<rceil>)"
  define nR where "nR = nat nRi"
  define nA where "nA = nat nAi"
  have circ: "0 < 2 * pi * faceRadius" using assms(3) by simp
  have "0 < 2 * pi * faceRadius / m" using circ m by simp
  then have "0 < \<lceil>2 * pi * faceRadius / m\<rceil>" by (simp add: less_ceiling_iff)
  then have nAi_pos: "0 < nAi" unfolding nAi_def by linarith
  have nRi_pos: "0 < nRi" unfolding nRi_def by linarith
  have rR: "real nR = real_of_int nRi" using nRi_pos by (simp add: nR_def)
  have rA: "real nA = real_of_int nAi" using nAi_pos by (simp add: nA_def)
  have nR_pos: "0 < nR" using nRi_pos by (simp add: nR_def)
  have nA_pos: "0 < nA" using nAi_pos by (simp add: nA_def)
  have rad: "faceRadius / real nR \<le> o_radius orf"
    if "orf \<in> set orifices" "faceRadius / o_radius orf \<le> 120" for orf
  proof -
    have "m \<le> o_radius orf" unfolding m_def using that(1) by (rule minOrificeRadius_le)
    then show ?thesis
      unfolding rR nRi_def using m assms(3) that(2)
      by (intro capped_cell_size_le) simp_all
  qed
  have ang: "2 * pi * faceRadius / real nA \<le> o_radius orf"
    if "orf \<in> set orifices" "2 * pi * faceRadius / o_radius orf \<le> 512" for orf
  proof -
    have "m \<le> o_radius orf" unfolding m_def using that(1) by (rule minOrificeRadius_le)
    then show ?thesis
      unfolding rA nAi_def using m circ that(2)
      by (intro capped_cell_size_le) simp_all
  qed
  have r: "nRadial faceRadius orifices = Fin (real nR)"
    unfolding rR nRi_def m_def using m by (intro nRadial_finite) (simp add: m_def)
  have a: "nAngular faceRadius orifices segments = Fin (real nA)"
    unfolding rA nAi_def m_def using m by (intro nAngular_finite) (simp add: m_def)
  have face: "fst (createInjectorFaceWithOrifices x faceRadius orifices segments)
      = grid_face x faceRadius orifices nR nA"
    unfolding createInjectorFaceWithOrifices_def r a by simp
  have hole: "(\<exists>i<nR. \<exists>j<nA.
                 inside_orifice (cell_center faceRadius nR nA i j) orf
               \<and> grid_cell faceRadius orifices nR nA i j = [])
           \<and> triangle_count (fst (createInjectorFaceWithOrifices x faceRadius orifices segments))
               < (2 * nR - 1) * nA"
    if o: "orf \<in> set orifices" and s1: "faceRadius / o_radius orf \<le> 120"
      and s2: "2 * pi * faceRadius / o_radius orf \<le> 512"
      and on: "o_y orf * o_y orf + o_z orf * o_z orf \<le> faceRadius * faceRadius" for orf
  proof -
    obtain i j where i: "i < nR" and j: "j < nA"
      and ins: "inside_orifice (cell_center faceRadius nR nA i j) orf"
      using orifice_contains_cell_centre [OF assms(3) nR_pos nA_pos on rad [OF o s1] ang [OF o s2]]
      by blast
    have "list_ex (inside_orifice (cell_center faceRadius nR nA i j)) orifices"
      using o ins by (auto simp: list_ex_iff)
    then have e: "grid_cell faceRadius orifices nR nA i j = []"
      by (simp add: grid_cell_def)
    have "triangle_count (grid_face x faceRadius orifices nR nA) < (2 * nR - 1) * nA"
      using i j e by (rule grid_face_count_hole)
    then show ?thesis using i j ins e unfolding face by blast
  qed
  have b: "40 \<le> nR" "nR \<le> 120" "nA \<le> 512"
    by (simp_all add: nR_def nA_def nRi_def nAi_def)
  have sg: "segments \<le> 512 \<longrightarrow> segments \<le> nA"
  proof
    assume "segments \<le> 512"
    then have "int segments \<le> nAi" unfolding nAi_def by linarith
    then show "segments \<le> nA" unfolding nA_def by linarith
  qed
  show ?thesis using r a face nA_pos rad ang hole b sg by blast
qed


theorem injector_grid_cell_size_witness:
  "[\<lparr>o_y = 0.01, o_z = 0, o_radius = 0.002, o_type = ''fuel''\<rparr>] \<noteq> []
   \<and> 0 < o_radius \<lparr>o_y = 0.01, o_z = 0, o_radius = 0.002, o_type = ''fuel''\<rparr>
   \<and> (0 :: real) < 0.04 \<and> (64 :: nat) \<le> 512
   \<and> (0.04 :: real) / 0.002 \<le> 120 \<and> 2 * pi * 0.04 / 0.002 \<le> 512
   \<and> (0.01 :: real) * 0.01 + 0 * 0 \<le> 0.04 * 0.04
   \<and> (\<exists>nR nA :: nat.
         nRadial 0.04 [\<lparr>o_y = 0.01, o_z = 0, o_radius = 0.002, o_type = ''fuel''\<rparr>]
           = Fin (real nR)
       \<and> nAngular 0.04 [\<lparr>o_y = 0.01, o_z = 0, o_radius = 0.002, o_type = ''fuel''\<rparr>] 64
           = Fin (real nA)
       \<and> fst (createInjectorFaceWithOrifices 0 0.04
                [\<lparr>o_y = 0.01, o_z = 0, o_radius = 0.002, o_type = ''fuel''\<rparr>] 64)
           = grid_face 0 0.04 [\<lparr>o_y = 0.01, o_z = 0, o_radius = 0.002, o_type = ''fuel''\<rparr>] nR nA
       \<and> 40 \<le> nR \<and> nR \<le> 120 \<and> 64 \<le> nA \<and> nA \<le> 512
       \<and> 0.04 / real nR \<le> 0.002 \<and> 2 * pi * 0.04 / real nA \<le> 0.002
       \<and> (\<exists>i<nR. \<exists>j<nA.
             inside_orifice (cell_center 0.04 nR nA i j)
               \<lparr>o_y = 0.01, o_z = 0, o_radius = 0.002, o_type = ''fuel''\<rparr>
           \<and> grid_cell 0.04 [\<lparr>o_y = 0.01, o_z = 0, o_radius = 0.002, o_type = ''fuel''\<rparr>]
                nR nA i j = [])
       \<and> triangle_count (fst (createInjectorFaceWithOrifices 0 0.04
                [\<lparr>o_y = 0.01, o_z = 0, o_radius = 0.002, o_type = ''fuel''\<rparr>] 64))
           < (2 * nR - 1) * nA)"
proof -
  have "2 * pi * 0.04 / 0.002 \<le> 512"
    using pi_less_4 by simp
  then show ?thesis
    using injector_grid_cell_size
      [of "[\<lparr>o_y = 0.01, o_z = 0, o_radius = 0.002, o_type = ''fuel''\<rparr>]" "0.04" 64 0]
    by auto
qed

text \<open>
  On a face of radius 1 with a single orifice of radius 0.001 at the centre, the
  resolution is capped at 120 by 512: a radial cell (1/120) and a rim arc (2 \<pi> / 512)
  are both larger than the orifice, no cell centre lies inside it, and the face mesh is
  the one of the same grid without any orifice: no hole is cut.  An orifice of radius 0.5
  centred at distance 5 from the axis of the same face is larger than the cells of its
  40 by 64 grid, yet it contains no cell centre either.
\<close>

theorem injector_grid_counterexample:
  "nRadial 1 [\<lparr>o_y = 0, o_z = 0, o_radius = 0.001, o_type = ''fuel''\<rparr>] = Fin 120
   \<and> nAngular 1 [\<lparr>o_y = 0, o_z = 0, o_radius = 0.001, o_type = ''fuel''\<rparr>] 64 = Fin 512
   \<and> \<not> (1 / 120 \<le> o_radius \<lparr>o_y = 0, o_z = 0, o_radius = 0.001, o_type = ''fuel''\<rparr>)
   \<and> \<not> (2 * pi * 1 / 512 \<le> o_radius \<lparr>o_y = 0, o_z = 0, o_radius = 0.001, o_type = ''fuel''\<rparr>)
   \<and> fst (createInjectorFaceWithOrifices 0 1
            [\<lparr>o_y = 0, o_z = 0, o_radius = 0.001, o_type = ''fuel''\<rparr>] 64)
       = grid_face 0 1 [] 120 512
   \<and> nRadial 1 [\<lparr>o_y = 5, o_z = 0, o_radius = 0.5, o_type = ''fuel''\<rparr>] = Fin 40
   \<and> nAngular 1 [\<lparr>o_y = 5, o_z = 0, o_radius = 0.5, o_type = ''fuel''\<rparr>] 64 = Fin 64
   \<and> 1 / 40 \<le> o_radius \<lparr>o_y = 5, o_z = 0, o_radius = 0.5, o_type = ''fuel''\<rparr>
   \<and> 2 * pi * 1 / 64 \<le> o_radius \<lparr>o_y = 5, o_z = 0, o_radius = 0.5, o_type = ''fuel''\<rparr>
   \<and> fst (createInjectorFaceWithOrifices 0 1
            [\<lparr>o_y = 5, o_z = 0, o_radius = 0.5, o_type = ''fuel''\<rparr>] 64)
       = grid_face 0 1 [] 40 64"
proof -
  let ?tiny = "\<lparr>o_y = 0, o_z = 0, o_radius = 0.001 :: real, o_type = ''fuel''\<rparr>"
  let ?far = "\<lparr>o_y = 5, o_z = 0, o_radius = 0.5 :: real, o_type = ''fuel''\<rparr>"
  have m: "minOrificeRadius 1 [?tiny] = 0.001"
    by (simp add: minOrificeRadius_def)
  have nr: "nRadial 1 [?tiny] = Fin 120"
    using nRadial_finite [of 1 "[?tiny]"] unfolding m by simp
  have "511 < 2 * pi * 1 / 0.001" using pi_ge_two by simp
  then have "512 \<le> \<lceil>2 * pi * 1 / 0.001 :: real\<rceil>" by (simp add: le_ceiling_iff)
  then have "min 512 (max 64 \<lceil>2 * pi * 1 / 0.001 :: real\<rceil>) = 512" by linarith
  then have na: "nAngular 1 [?tiny] 64 = Fin 512"
    using nAngular_finite [of 1 "[?tiny]" 64] unfolding m by simp
  have arc: "\<not> (2 * pi * 1 / 512 \<le> (0.001 :: real))" using pi_ge_two by simp
  have cells: "grid_cell 1 [?tiny] 120 nA i j = grid_cell 1 [] 120 nA i j" for nA i j
    using tiny_orifice_outside_every_cell [of nA i j] by (simp add: grid_cell_def)
  have same: "grid_face 0 1 [?tiny] 120 512 = grid_face 0 1 [] 120 512"
    unfolding grid_face_def cells by (rule refl)
  have "fst (createInjectorFaceWithOrifices 0 1 [?tiny] 64)
          = grid_face 0 1 [?tiny] (nat \<lfloor>120 :: real\<rfloor>) (nat \<lfloor>512 :: real\<rfloor>)"
    unfolding createInjectorFaceWithOrifices_def nr na by simp
  also have "\<dots> = grid_face 0 1 [] 120 512"
    unfolding same [symmetric] by simp
  finally have t: "fst (createInjectorFaceWithOrifices 0 1 [?tiny] 64) = grid_face 0 1 [] 120 512" .
  have m': "minOrificeRadius 1 [?far] = 0.5"
    by (simp add: minOrificeRadius_def)
  have nr': "nRadial 1 [?far] = Fin 40"
    using nRadial_finite [of 1 "[?far]"] unfolding m' by simp
  have "2 * pi * 1 / 0.5 \<le> (64 :: real)" using pi_less_4 by simp
  then have "\<lceil>2 * pi * 1 / 0.5 :: real\<rceil> \<le> 64" by (simp add: ceiling_le_iff)
  then have "min 512 (max 64 \<lceil>2 * pi * 1 / 0.5 :: real\<rceil>) = 64" by linarith
  then have na': "nAngular 1 [?far] 64 = Fin 64"
    using nAngular_finite [of 1 "[?far]" 64] unfolding m' by simp
  have arc': "2 * pi * 1 / 64 \<le> (0.5 :: real)" using pi_less_4 by simp
  have cells': "grid_cell 1 [?far] 40 nA i j = grid_cell 1 [] 40 nA i j" if "i < 40" for nA i j
    using far_orifice_outside_every_cell [OF that, of nA j] by (simp add: grid_cell_def)
  have "map (\<lambda>i. concat (map (grid_cell 1 [?far] 40 64 i) [0..<64])) [0..<40]
      = map (\<lambda>i. concat (map (grid_cell 1 [] 40 64 i) [0..<64])) [0..<40]"
  proof (rule map_cong [OF refl])
    fix i :: nat
    assume "i \<in> set [0..<40]"
    then have i: "i < 40" by simp
    have "grid_cell 1 [?far] 40 64 i = grid_cell 1 [] 40 64 i"
      by (rule ext) (rule cells' [OF i])
    then show "concat (map (grid_cell 1 [?far] 40 64 i) [0..<64])
        = concat (map (grid_cell 1 [] 40 64 i) [0..<64])"
      by (simp only:)
  qed
  then have same': "grid_face 0 1 [?far] 40 64 = grid_face 0 1 [] 40 64"
    unfolding grid_face_def by (rule arg_cong [where f = "\<lambda>rows. geometry_of _ (concat rows)"])
  have "fst (createInjectorFaceWithOrifices 0 1 [?far] 64)
          = grid_face 0 1 [?far] (nat \<lfloor>40 :: real\<rfloor>) (nat \<lfloor>64 :: real\<rfloor>)"
    unfolding createInjectorFaceWithOrifices_def nr' na' by simp
  also have "\<dots> = grid_face 0 1 [] 40 64"
    unfolding same' [symmetric] by simp
  finally have f: "fst (createInjectorFaceWithOrifices 0 1 [?far] 64) = grid_face 0 1 [] 40 64" .
  show ?thesis
    unfolding t f using nr na arc nr' na' arc' by simp
qed

subsection \<open>Colour ramps on degenerate ranges\<close>

lemma thermalColor_degenerate: "thermalColor v v v = (Fin 1, NaN, Fin 0)"
  by (simp add: thermalColor_def js_div_def)

lemma thermalColor_in_unit:
  assumes "mn \<noteq> mx" and "thermalColor v mn mx = (r, g, b)"
  shows "in_unit r \<and> in_unit g \<and> in_unit b"
proof -
  define t where "t = max 0 (min 1 ((v - mn) / (mx - mn)))"
  have t: "0 \<le> t" "t \<le> 1" by (simp_all add: t_def)
  have "js_max (Fin 0) (js_min (Fin 1) (js_div (v - mn) (mx - mn))) = Fin t"
    using assms(1) by (simp add: js_div_def t_def)
  then have "(r, g, b) =
      (if t < 0.25 then (Fin 0, Fin (t / 0.25), Fin 1)
          else if t < 0.5 then (Fin 0, Fin 1, Fin (1 - (t - 0.25) / 0.25))
          else if t < 0.75 then (Fin ((t - 0.5) / 0.25), Fin 1, Fin 0)
          else (Fin 1, Fin (1 - (t - 0.75) / 0.25), Fin 0))"
    using assms(2) by (simp add: thermalColor_def)
  then show ?thesis using t by (auto split: if_splits)
qed

lemma heat_station_color_constant:
  assumes "stationTemps \<noteq> []" and "\<forall>x \<in> set stationTemps. x = c"
  shows "heat_station_color stationTemps i = (Fin 1, NaN, Fin 0)"
proof -
  have s: "set stationTemps = {c}" using assms by (cases stationTemps) auto
  have "i < length stationTemps \<Longrightarrow> stationTemps ! i = c"
    using assms(2) by simp
  then show ?thesis
    using assms(1) by (simp add: heat_station_color_def s Let_def thermalColor_degenerate)
qed

lemma coolantColor_in_unit:
  assumes "coolantColor temp tMin tMax = (r, g, b)"
  shows "0 \<le> r \<and> r \<le> 1 \<and> 0 \<le> g \<and> g \<le> 1 \<and> 0 \<le> b \<and> b \<le> 1"
proof -
  define t where "t = clamp ((temp - tMin) / max (tMax - tMin) 1) 0 1"
  have t: "0 \<le> t" "t \<le> 1" by (simp_all add: t_def clamp_def)
  have mr: "0 \<le> mapRange s 0 1 lo hi \<and> mapRange s 0 1 lo hi \<le> 1"
    if "0 \<le> lo" "lo \<le> 1" "0 \<le> hi" "hi \<le> 1" for s lo hi
  proof -
    define u where "u = clamp ((s - 0) / (1 - 0)) 0 1"
    have u: "0 \<le> u" "u \<le> 1" by (simp_all add: u_def clamp_def)
    have eq: "mapRange s 0 1 lo hi = (1 - u) * lo + u * hi"
      by (simp add: mapRange_def lerp_def u_def Let_def algebra_simps)
    have "0 \<le> (1 - u) * lo + u * hi" using u that by simp
    moreover have "(1 - u) * lo + u * hi \<le> (1 - u) * 1 + u * 1"
      using u that by (intro add_mono mult_left_mono) simp_all
    ultimately show ?thesis by (simp add: eq)
  qed
  have "(if t < 0.33 then (0, mapRange (t / 0.33) 0 1 0.3 0.9, 1)
        else if t < 0.66 then ((t - 0.33) / 0.33, 0.9, 1 - (t - 0.33) / 0.33)
        else (1, mapRange ((t - 0.66) / 0.34) 0 1 0.9 0.15, 0)) = (r, g, b)"
    using assms unfolding coolantColor_def Let_def t_def .
  then consider
      (lo) "t < 0.33" "r = 0" "g = mapRange (t / 0.33) 0 1 0.3 0.9" "b = 1"
    | (mid) "\<not> t < 0.33" "t < 0.66" "r = (t - 0.33) / 0.33" "g = 0.9" "b = 1 - (t - 0.33) / 0.33"
    | (hi) "\<not> t < 0.66" "r = 1" "g = mapRange ((t - 0.66) / 0.34) 0 1 0.9 0.15" "b = 0"
    by (auto simp only: prod.inject split: if_splits)
  then show ?thesis
  proof cases
    case lo
    then show ?thesis using mr [of "0.3" "0.9" "t / 0.33"] by simp
  next
    case mid
    then show ?thesis by (simp add: field_simps)
  next
    case hi
    then show ?thesis using mr [of "0.9" "0.15" "(t - 0.66) / 0.34"] by simp
  qed
qed

text \<open>
  C7.  The thermal ramp divides by \<open>max - min\<close> without a guard.  On a constant station
  array (here two stations at 300 K) the ratio is \<open>0 / 0\<close>: the green component of the
  colour is \<open>NaN\<close>, and the heat map writes that colour on every vertex.  The coolant ramp
  (\<open>coolantColor_in_unit\<close>) is guarded and stays in the unit cube.
\<close>

theorem thermalColor_constant_array_is_NaN:
  "thermalColor 300 300 300 = (Fin 1, NaN, Fin 0)
   \<and> \<not> in_unit (fst (snd (thermalColor 300 300 300)))
   \<and> heat_colors [300, 300] 2 1 4 = replicate 4 (Fin 1, NaN, Fin 0)"
proof -
  have c: "heat_station_color [300, 300] i = (Fin 1, NaN, Fin 0)" for i
    by (rule heat_station_color_constant [where c = 300]) simp_all
  have "heat_colors [300, 300] 2 1 4 = replicate 4 (Fin 1, NaN, Fin 0)"
    unfolding heat_colors_def c
    by (simp add: paint_station_def numeral_2_eq_2 numeral_eq_Suc)
  then show ?thesis by (simp add: thermalColor_degenerate)
qed

subsection \<open>Flow overlay\<close>

lemma length_paint_station [simp]:
  "length (paint_station nCirc i c colors) = length colors"
proof -
  have "length (fold (\<lambda>j cs. cs[i * (nCirc + 1) + j := c]) js colors) = length colors" for js
    by (induction js arbitrary: colors) auto
  then show ?thesis by (simp add: paint_station_def)
qed

lemma paint_station_nth:
  assumes "k < length colors"
  shows "paint_station nCirc i c colors ! k =
           (if i * (nCirc + 1) \<le> k \<and> k < i * (nCirc + 1) + Suc nCirc then c else colors ! k)"
proof -
  define base where "base = i * (nCirc + 1)"
  have len: "length (fold (\<lambda>j cs. cs[base + j := c]) js cs) = length cs" for js cs
    by (induction js arbitrary: cs) auto
  have gen: "fold (\<lambda>j cs. cs[base + j := c]) [0..<n] colors ! k =
          (if base \<le> k \<and> k < base + n then c else colors ! k)" for n
  proof (induction n)
    case 0
    then show ?case by auto
  next
    case (Suc n)
    show ?case
    proof (cases "k = base + n")
      case True
      then show ?thesis using assms by (simp add: len)
    next
      case False
      then show ?thesis using Suc by (auto simp: nth_list_update)
    qed
  qed
  show ?thesis unfolding paint_station_def base_def [symmetric] by (rule gen)
qed

lemma length_paint_stations_gen [simp]:
  "length (fold (\<lambda>i cs. paint_station nCirc i (f i) cs) is colors) = length colors"
  by (induction "is" arbitrary: colors) auto

lemma paint_stations_nth:
  assumes "i < n" and "j \<le> nCirc" and "n * (nCirc + 1) \<le> length colors"
  shows "fold (\<lambda>i cs. paint_station nCirc i (f i) cs) [0..<n] colors ! (i * (nCirc + 1) + j) = f i"
  using assms
proof (induction n)
  case 0
  then show ?case by simp
next
  case (Suc n)
  let ?prev = "fold (\<lambda>i cs. paint_station nCirc i (f i) cs) [0..<n] colors"
  have "i * (nCirc + 1) + j < Suc i * (nCirc + 1)"
    using Suc.prems(2) by simp
  also have "\<dots> \<le> Suc n * (nCirc + 1)"
    using Suc.prems(1) by (intro mult_le_mono1) simp
  finally have k_lt: "i * (nCirc + 1) + j < length ?prev"
    using Suc.prems(3) by simp
  show ?case
  proof (cases "i = n")
    case True
    then show ?thesis
      using k_lt Suc.prems(2) by (simp add: paint_station_nth)
  next
    case False
    then have i_lt: "i < n" using Suc.prems(1) by simp
    then have "Suc i * (nCirc + 1) \<le> n * (nCirc + 1)"
      by (intro mult_le_mono1) simp
    then have "\<not> n * (nCirc + 1) \<le> i * (nCirc + 1) + j"
      using Suc.prems(2) by simp
    moreover have "?prev ! (i * (nCirc + 1) + j) = f i"
      using Suc.IH i_lt Suc.prems by simp
    ultimately show ?thesis
      using k_lt by (simp add: paint_station_nth)
  qed
qed

lemma machColor_sonic: "machColor 1 = (1, 1, 1)"
  by (simp add: machColor_def mapRange_def clamp_def lerp_def)

text \<open>
  C10.  When the Mach array is shorter than the station count, every station index
  \<open>i\<close> with \<open>length machArray \<le> i < nStations\<close> gets, on each of its \<open>nCirc + 1\<close>
  circumferential vertices, the colour of Mach \<open>1.0\<close>, which is pure white \<open>(1, 1, 1)\<close>;
  the overlay is applied (colour attribute present, \<open>vertexColors\<close> switched on).
\<close>

theorem flow_short_mach_array_is_sonic_white:
  assumes "inner = Some mesh"
    and "length ma \<le> i" and "i < nStations" and "j \<le> nCirc"
    and "applyFlowVisualization inner applied (Some ma) nStations nCirc = (mesh', applied')"
  shows "\<exists>m cs. mesh' = Some m \<and> applied' \<and> vertexColors m \<and> color_attr m = Some cs
           \<and> length cs = nStations * (nCirc + 1)
           \<and> cs ! (i * (nCirc + 1) + j) = machColor 1.0
           \<and> cs ! (i * (nCirc + 1) + j) = (1, 1, 1)"
proof -
  define colors where "colors = (case color_attr mesh of
                           Some cs \<Rightarrow> if length cs \<noteq> nStations * (nCirc + 1)
                                      then replicate (nStations * (nCirc + 1)) (0, 0, 0) else cs
                         | None \<Rightarrow> replicate (nStations * (nCirc + 1)) (0, 0, 0))"
  have len: "length colors = nStations * (nCirc + 1)"
    by (auto simp: colors_def split: option.splits)
  let ?cs = "paint_mach ma nStations nCirc colors"
  have res: "mesh' = Some (mesh\<lparr>color_attr := Some ?cs, vertexColors := True\<rparr>)" "applied'"
    using assms(1,5) unfolding applyFlowVisualization_def colors_def Let_def
    by (auto simp del: mult_Suc_right)
  have "?cs ! (i * (nCirc + 1) + j) = machColor (flow_station_mach ma i)"
    unfolding paint_mach_def using assms(3,4) len
    by (intro paint_stations_nth) simp_all
  also have "\<dots> = machColor 1"
    using assms(2) by (simp add: flow_station_mach_def)
  finally have "?cs ! (i * (nCirc + 1) + j) = machColor 1" .
  moreover have "length ?cs = nStations * (nCirc + 1)"
    by (simp add: paint_mach_def len)
  ultimately show ?thesis
    using res by (simp add: machColor_sonic)
qed

theorem flow_short_mach_array_witness:
  "length [0.5 :: real] \<le> 1 \<and> (1 :: nat) < 2 \<and> (0 :: nat) \<le> 1 \<and>
   (\<exists>m cs. fst (applyFlowVisualization (Some \<lparr>color_attr = None, vertexColors = False\<rparr>)
                      False (Some [0.5]) 2 1) = Some m
      \<and> vertexColors m \<and> color_attr m = Some cs \<and> length cs = 2 * (1 + 1)
      \<and> cs ! (1 * (1 + 1) + 0) = (1, 1, 1))"
  using flow_short_mach_array_is_sonic_white
    [of "Some \<lparr>color_attr = None, vertexColors = False\<rparr>"
        "\<lparr>color_attr = None, vertexColors = False\<rparr>" "[0.5]" 1 2 0 1 False
        "fst (applyFlowVisualization (Some \<lparr>color_attr = None, vertexColors = False\<rparr>)
                      False (Some [0.5]) 2 1)"
        "snd (applyFlowVisualization (Some \<lparr>color_attr = None, vertexColors = False\<rparr>)
                      False (Some [0.5]) 2 1)"]
  by auto

subsection \<open>Plume half-angle\<close>

lemma plumeHalfAngle_factor:
  "plumeHalfAngle (recomputeDerived ph exitR) =
     arcsin (1 / max (exit_mach ph) 1.01) * angle_factor (pressureRatio (recomputeDerived ph exitR))"
  by (simp add: recomputeDerived_def Let_def angle_factor_def)

lemma machAngle_pos: "0 < arcsin (1 / max m 1.01)"
proof -
  have "1 < max m 1.01" by simp
  then have "0 < 1 / max m 1.01" "1 / max m 1.01 \<le> 1" by simp_all
  then have "arcsin 0 < arcsin (1 / max m 1.01)"
    by (intro arcsin_less_arcsin) simp_all
  then show ?thesis by simp
qed

lemma min_cap_mono: "(x :: real) \<le> y \<Longrightarrow> min (1 + 0.4 * x) 2.5 \<le> min (1 + 0.4 * y) 2.5"
  by (simp add: min_def)

lemma min_cap_strict:
  "(x :: real) < y \<Longrightarrow> y \<le> 3.75 \<Longrightarrow> min (1 + 0.4 * x) 2.5 < min (1 + 0.4 * y) 2.5"
  by (simp add: min_def)

lemma min_cap_reached: "3.75 \<le> (x :: real) \<Longrightarrow> min (1 + 0.4 * x) 2.5 = 2.5"
  by (simp add: min_def)

lemma min_cap_above_one: "0 < (x :: real) \<Longrightarrow> 1 < min (1 + 0.4 * x) 2.5"
  by (simp add: min_def)

lemma max_floor_le_half: "(a :: real) \<le> 1 \<Longrightarrow> max (0.5 * a) 0.15 \<le> 0.5"
  by (simp add: max_def)

lemma angle_factor_mono:
  assumes "a \<le> b"
  shows "angle_factor a \<le> angle_factor b"
proof (cases "1 < a")
  case True
  then have "ln a \<le> ln b" using assms by (intro ln_mono) simp_all
  then have "min (1 + 0.4 * ln a) 2.5 \<le> min (1 + 0.4 * ln b) 2.5" by (rule min_cap_mono)
  moreover have "1 < b" using True assms by linarith
  ultimately show ?thesis using True by (simp only: angle_factor_def if_True)
next
  case False
  show ?thesis
  proof (cases "1 < b")
    case True
    then have "0 < ln b" by simp
    then have "1 < min (1 + 0.4 * ln b) 2.5" by (rule min_cap_above_one)
    moreover have "max (0.5 * a) 0.15 \<le> 0.5" using False by (intro max_floor_le_half) simp
    ultimately have "max (0.5 * a) 0.15 \<le> min (1 + 0.4 * ln b) 2.5" by linarith
    then show ?thesis using True False by (simp only: angle_factor_def if_True if_False)
  next
    case b: False
    then show ?thesis using False assms by (simp add: angle_factor_def max_def)
  qed
qed

lemma angle_factor_strict:
  assumes "0.3 \<le> a" "a < b" "b \<le> exp 3.75"
  shows "angle_factor a < angle_factor b"
proof (cases "1 < a")
  case True
  then have l: "ln a < ln b" using assms by (intro ln_strict_mono) simp_all
  have b: "1 < b" using True assms by linarith
  then have "ln b \<le> ln (exp 3.75)" using assms(3) by (intro ln_mono) simp_all
  then have "ln b \<le> 3.75" by (simp only: ln_exp)
  with l have "min (1 + 0.4 * ln a) 2.5 < min (1 + 0.4 * ln b) 2.5" by (rule min_cap_strict)
  then show ?thesis using True b by (simp only: angle_factor_def if_True)
next
  case False
  show ?thesis
  proof (cases "1 < b")
    case True
    then have "0 < ln b" by simp
    then have "1 < min (1 + 0.4 * ln b) 2.5" by (rule min_cap_above_one)
    moreover have "max (0.5 * a) 0.15 \<le> 0.5" using False by (intro max_floor_le_half) simp
    ultimately have "max (0.5 * a) 0.15 < min (1 + 0.4 * ln b) 2.5" by linarith
    then show ?thesis using True False by (simp only: angle_factor_def if_True if_False)
  next
    case b: False
    then show ?thesis using False assms by (simp add: angle_factor_def max_def)
  qed
qed

lemma angle_factor_floor: "a \<le> 0.3 \<Longrightarrow> angle_factor a = 0.15"
  by (simp add: angle_factor_def max_def)

lemma angle_factor_cap: "exp 3.75 \<le> a \<Longrightarrow> angle_factor a = 2.5"
proof -
  assume a: "exp 3.75 \<le> a"
  have "(1::real) < exp 3.75" by simp
  then have "1 < a" "0 < a" using a by linarith+
  then have "3.75 \<le> ln a" using a by (simp only: ln_ge_iff)
  then have "min (1 + 0.4 * ln a) 2.5 = 2.5" by (rule min_cap_reached)
  then show ?thesis using \<open>1 < a\<close> by (simp only: angle_factor_def if_True)
qed

lemma exp_375_le_100: "exp 3.75 \<le> (100 :: real)"
proof -
  have "exp (3.75 :: real) \<le> exp (of_nat 4 * 1)" by simp
  also have "\<dots> = exp 1 ^ 4" by (rule exp_of_nat_mult)
  also have "\<dots> \<le> 3 ^ 4" by (intro power_mono exp_le) simp
  also have "\<dots> \<le> (100 :: real)" by simp
  finally show ?thesis .
qed

lemma two_le_exp_375: "2 \<le> exp (3.75 :: real)"
proof -
  have "1 + 3.75 \<le> exp (3.75 :: real)" by (rule exp_ge_add_one_self)
  then show ?thesis by simp
qed

text \<open>
  C6 (as amended).  With the exit Mach number held fixed, the plume half-angle never
  decreases when the pressure ratio grows, and it grows strictly while the ratio stays
  between 0.3 and \<open>exp 3.75\<close> (about 42.5).  Outside that window the factor is clamped: the
  half-angle is 0.15 times the Mach angle for every ratio up to 0.3, and 2.5 times the
  Mach angle for every ratio from \<open>exp 3.75\<close> on.
\<close>

theorem plume_half_angle_monotone:
  assumes "exit_mach p = exit_mach q"
  shows "(pressureRatio (recomputeDerived p rp) \<le> pressureRatio (recomputeDerived q rq) \<longrightarrow>
            plumeHalfAngle (recomputeDerived p rp) \<le> plumeHalfAngle (recomputeDerived q rq))
       \<and> (0.3 \<le> pressureRatio (recomputeDerived p rp)
            \<and> pressureRatio (recomputeDerived p rp) < pressureRatio (recomputeDerived q rq)
            \<and> pressureRatio (recomputeDerived q rq) \<le> exp 3.75 \<longrightarrow>
            plumeHalfAngle (recomputeDerived p rp) < plumeHalfAngle (recomputeDerived q rq))
       \<and> (pressureRatio (recomputeDerived p rp) \<le> 0.3 \<longrightarrow>
            plumeHalfAngle (recomputeDerived p rp) = arcsin (1 / max (exit_mach p) 1.01) * 0.15)
       \<and> (exp 3.75 \<le> pressureRatio (recomputeDerived p rp) \<longrightarrow>
            plumeHalfAngle (recomputeDerived p rp) = arcsin (1 / max (exit_mach p) 1.01) * 2.5)"
proof -
  define a where "a = arcsin (1 / max (exit_mach p) 1.01)"
  have a: "0 < a" unfolding a_def by (rule machAngle_pos)
  have hp: "plumeHalfAngle (recomputeDerived p rp) = a * angle_factor (pressureRatio (recomputeDerived p rp))"
    unfolding a_def by (rule plumeHalfAngle_factor)
  have hq: "plumeHalfAngle (recomputeDerived q rq) = a * angle_factor (pressureRatio (recomputeDerived q rq))"
    unfolding a_def assms by (rule plumeHalfAngle_factor)
  show ?thesis
    unfolding hp hq a_def [symmetric]
    using a angle_factor_mono angle_factor_strict angle_factor_floor angle_factor_cap
    by (auto intro: mult_left_mono)
qed

lemma pressureRatio_eq:
  "pressureRatio (recomputeDerived ph r) = exit_pressure_Pa ph / max (ambient_pressure_Pa ph) 1"
  by (simp add: recomputeDerived_def Let_def)

theorem plume_half_angle_monotone_witness:
  "exit_mach \<lparr>exit_mach = 3, exit_pressure_Pa = 50000, ambient_pressure_Pa = 100000,
               exit_temperature_K = 1800, gamma = 1.2\<rparr>
     = exit_mach \<lparr>exit_mach = 3, exit_pressure_Pa = 200000, ambient_pressure_Pa = 100000,
                 exit_temperature_K = 1800, gamma = 1.2\<rparr>
   \<and> 0.3 \<le> pressureRatio (recomputeDerived \<lparr>exit_mach = 3, exit_pressure_Pa = 50000,
                 ambient_pressure_Pa = 100000, exit_temperature_K = 1800, gamma = 1.2\<rparr> 0.02)
   \<and> pressureRatio (recomputeDerived \<lparr>exit_mach = 3, exit_pressure_Pa = 50000,
                 ambient_pressure_Pa = 100000, exit_temperature_K = 1800, gamma = 1.2\<rparr> 0.02)
       < pressureRatio (recomputeDerived \<lparr>exit_mach = 3, exit_pressure_Pa = 200000,
                 ambient_pressure_Pa = 100000, exit_temperature_K = 1800, gamma = 1.2\<rparr> 0.02)
   \<and> pressureRatio (recomputeDerived \<lparr>exit_mach = 3, exit_pressure_Pa = 200000,
                 ambient_pressure_Pa = 100000, exit_temperature_K = 1800, gamma = 1.2\<rparr> 0.02)
       \<le> exp 3.75
   \<and> plumeHalfAngle (recomputeDerived \<lparr>exit_mach = 3, exit_pressure_Pa = 50000,
                 ambient_pressure_Pa = 100000, exit_temperature_K = 1800, gamma = 1.2\<rparr> 0.02)
       < plumeHalfAngle (recomputeDerived \<lparr>exit_mach = 3, exit_pressure_Pa = 200000,
                 ambient_pressure_Pa = 100000, exit_temperature_K = 1800, gamma = 1.2\<rparr> 0.02)
   \<and> pressureRatio (recomputeDerived \<lparr>exit_mach = 3, exit_pressure_Pa = 10000,
                 ambient_pressure_Pa = 100000, exit_temperature_K = 1800, gamma = 1.2\<rparr> 0.02)
       \<le> 0.3
   \<and> plumeHalfAngle (recomputeDerived \<lparr>exit_mach = 3, exit_pressure_Pa = 10000,
                 ambient_pressure_Pa = 100000, exit_temperature_K = 1800, gamma = 1.2\<rparr> 0.02)
       = arcsin (1 / 3) * 0.15
   \<and> exp 3.75 \<le> pressureRatio (recomputeDerived \<lparr>exit_mach = 3, exit_pressure_Pa = 10000000,
                 ambient_pressure_Pa = 100000, exit_temperature_K = 1800, gamma = 1.2\<rparr> 0.02)
   \<and> plumeHalfAngle (recomputeDerived \<lparr>exit_mach = 3, exit_pressure_Pa = 10000000,
                 ambient_pressure_Pa = 100000, exit_temperature_K = 1800, gamma = 1.2\<rparr> 0.02)
       = arcsin (1 / 3) * 2.5"
proof -
  let ?ph = "\<lambda>pe. \<lparr>exit_mach = 3, exit_pressure_Pa = pe, ambient_pressure_Pa = 100000,
               exit_temperature_K = 1800, gamma = 1.2 :: real\<rparr>"
  have r: "pressureRatio (recomputeDerived (?ph pe) 0.02) = pe / 100000" for pe
    by (simp add: pressureRatio_eq)
  have m: "max (exit_mach (?ph pe)) 1.01 = 3" for pe by simp
  have w: "pressureRatio (recomputeDerived (?ph 200000) 0.02) \<le> exp 3.75"
    unfolding r using two_le_exp_375 by simp
  have c: "exp 3.75 \<le> pressureRatio (recomputeDerived (?ph 10000000) 0.02)"
    unfolding r using exp_375_le_100 by simp
  have lo: "0.3 \<le> pressureRatio (recomputeDerived (?ph 50000) 0.02)"
    "pressureRatio (recomputeDerived (?ph 50000) 0.02) < pressureRatio (recomputeDerived (?ph 200000) 0.02)"
    "pressureRatio (recomputeDerived (?ph 10000) 0.02) \<le> 0.3"
    unfolding r by simp_all
  from plume_half_angle_monotone [of "?ph 50000" "?ph 200000" "0.02" "0.02"] lo w
  have s: "plumeHalfAngle (recomputeDerived (?ph 50000) 0.02)
            < plumeHalfAngle (recomputeDerived (?ph 200000) 0.02)"
    by (simp only: exhaust_physics.simps simp_thms)
  from plume_half_angle_monotone [of "?ph 10000" "?ph 10000" "0.02" "0.02"] lo(3)
  have f: "plumeHalfAngle (recomputeDerived (?ph 10000) 0.02) = arcsin (1 / 3) * 0.15"
    unfolding m by (simp only: exhaust_physics.simps simp_thms)
  from plume_half_angle_monotone [of "?ph 10000000" "?ph 10000000" "0.02" "0.02"] c
  have t: "plumeHalfAngle (recomputeDerived (?ph 10000000) 0.02) = arcsin (1 / 3) * 2.5"
    unfolding m by (simp only: exhaust_physics.simps simp_thms)
  show ?thesis
    using lo w c s f t by (simp only: exhaust_physics.simps simp_thms)
qed

text \<open>
  C6, counterexample.  At Mach 3 and an ambient pressure of 101325 Pa, doubling the exit
  pressure from 0.1 to 0.2 of ambient, or multiplying it by ten from 100 to 1000 times
  ambient, leaves the half-angle unchanged.
\<close>

theorem plume_half_angle_counterexample:
  "pressureRatio (recomputeDerived \<lparr>exit_mach = 3, exit_pressure_Pa = 10132.5,
        ambient_pressure_Pa = 101325, exit_temperature_K = 1800, gamma = 1.2\<rparr> 0.02)
     < pressureRatio (recomputeDerived \<lparr>exit_mach = 3, exit_pressure_Pa = 20265,
        ambient_pressure_Pa = 101325, exit_temperature_K = 1800, gamma = 1.2\<rparr> 0.02)
   \<and> pressureRatio (recomputeDerived \<lparr>exit_mach = 3, exit_pressure_Pa = 20265,
        ambient_pressure_Pa = 101325, exit_temperature_K = 1800, gamma = 1.2\<rparr> 0.02) < 1
   \<and> plumeHalfAngle (recomputeDerived \<lparr>exit_mach = 3, exit_pressure_Pa = 10132.5,
        ambient_pressure_Pa = 101325, exit_temperature_K = 1800, gamma = 1.2\<rparr> 0.02)
     = plumeHalfAngle (recomputeDerived \<lparr>exit_mach = 3, exit_pressure_Pa = 20265,
        ambient_pressure_Pa = 101325, exit_temperature_K = 1800, gamma = 1.2\<rparr> 0.02)
   \<and> 1 < pressureRatio (recomputeDerived \<lparr>exit_mach = 3, exit_pressure_Pa = 10132500,
        ambient_pressure_Pa = 101325, exit_temperature_K = 1800, gamma = 1.2\<rparr> 0.02)
   \<and> pressureRatio (recomputeDerived \<lparr>exit_mach = 3, exit_pressure_Pa = 10132500,
        ambient_pressure_Pa = 101325, exit_temperature_K = 1800, gamma = 1.2\<rparr> 0.02)
     < pressureRatio (recomputeDerived \<lparr>exit_mach = 3, exit_pressure_Pa = 101325000,
        ambient_pressure_Pa = 101325, exit_temperature_K = 1800, gamma = 1.2\<rparr> 0.02)
   \<and> plumeHalfAngle (recomputeDerived \<lparr>exit_mach = 3, exit_pressure_Pa = 10132500,
        ambient_pressure_Pa = 101325, exit_temperature_K = 1800, gamma = 1.2\<rparr> 0.02)
     = plumeHalfAngle (recomputeDerived \<lparr>exit_mach = 3, exit_pressure_Pa = 101325000,
        ambient_pressure_Pa = 101325, exit_temperature_K = 1800, gamma = 1.2\<rparr> 0.02)"
proof -
  let ?ph = "\<lambda>pe. \<lparr>exit_mach = 3, exit_pressure_Pa = pe, ambient_pressure_Pa = 101325,
               exit_temperature_K = 1800, gamma = 1.2 :: real\<rparr>"
  have r: "pressureRatio (recomputeDerived (?ph pe) 0.02) = pe / 101325" for pe
    by (simp add: pressureRatio_eq)
  have h: "plumeHalfAngle (recomputeDerived (?ph pe) 0.02)
             = arcsin (1 / max 3 1.01) * angle_factor (pe / 101325)" for pe
    using plumeHalfAngle_factor [of "?ph pe" "0.02"] unfolding r by simp
  have lo: "angle_factor (10132.5 / 101325) = 0.15" "angle_factor (20265 / 101325) = 0.15"
    by (simp_all add: angle_factor_floor)
  have "exp 3.75 \<le> (10132500 / 101325 :: real)" "exp 3.75 \<le> (101325000 / 101325 :: real)"
    using exp_375_le_100 by simp_all
  then have hi: "angle_factor (10132500 / 101325) = 2.5" "angle_factor (101325000 / 101325) = 2.5"
    by (simp_all only: angle_factor_cap)
  show ?thesis
    unfolding r h lo hi by simp
qed

subsection \<open>Plume particles: rebirth on overflow\<close>

lemma advance_flame_overflow:
  assumes "fround (p_lifetime p + (flame_speed thrustScale + u0 * 0.002)) > 1"
  shows "advance_flame_particle exitX thrustScale (u0, u1, u2) p =
           p\<lparr>p_position := (fround exitX, 0, 0), p_lifetime := fround u1,
             p_radius := fround (u2 powr 0.6)\<rparr>"
  using assms by (simp add: advance_flame_particle_def resetParticle_def Let_def)

lemma advance_flame_no_overflow:
  assumes "\<not> fround (p_lifetime p + (flame_speed thrustScale + u0 * 0.002)) > 1"
  shows "advance_flame_particle exitX thrustScale (u0, u1, u2) p =
           p\<lparr>p_lifetime := fround (p_lifetime p + (flame_speed thrustScale + u0 * 0.002))\<rparr>"
  using assms by (simp add: advance_flame_particle_def Let_def)

lemma updateFlame_pool:
  assumes "fl_particles st = Some ps"
  shows "fl_particles (updateFlame exitX exitRadius thrustScale ds st) =
           Some (map (\<lambda>i. advance_flame_particle exitX thrustScale (ds i) (ps ! i)) [0..<length ps])"
  using assms by (simp add: updateFlame_def)

lemma radial_fraction_unit:
  assumes "0 \<le> u" "u < 1"
  shows "0 \<le> fround (u powr 0.6) \<and> fround (u powr 0.6) \<le> 1"
proof -
  have "0 \<le> u powr 0.6" by simp
  moreover have "u powr 0.6 \<le> 1" using assms by (intro powr_le1) simp_all
  ultimately show ?thesis by (simp add: fround_nonneg fround_le_one)
qed

text \<open>
  Claim C5 (rebirth on overflow), as the code implements it.  When the lifetime stored by
  a per-frame step exceeds 1, the particle is not removed (the pool keeps its size): it
  restarts at the nozzle exit \<open>(exitX, 0, 0)\<close> with the lifetime drawn by \<open>Math.random()\<close>
  in \<open>resetParticle\<close> and a new radial fraction \<open>Math.pow(Math.random(), 0.6)\<close>, each
  stored as binary32.  The new lifetime is the stored draw, a value in \<open>[0, 1]\<close>, not 0.
\<close>

theorem flame_overflow_rebirth:
  assumes "fl_particles st = Some ps" and "i < length ps"
    and "ds i = (u0, u1, u2)" and "good_draws (ds i)"
    and "fround (p_lifetime (ps ! i) + (flame_speed thrustScale + u0 * 0.002)) > 1"
  shows "\<exists>ps'. fl_particles (updateFlame exitX exitRadius thrustScale ds st) = Some ps'
           \<and> length ps' = length ps
           \<and> p_position (ps' ! i) = (fround exitX, 0, 0)
           \<and> p_lifetime (ps' ! i) = fround u1
           \<and> p_radius (ps' ! i) = fround (u2 powr 0.6)
           \<and> 0 \<le> p_lifetime (ps' ! i) \<and> p_lifetime (ps' ! i) \<le> 1
           \<and> 0 \<le> p_radius (ps' ! i) \<and> p_radius (ps' ! i) \<le> 1"
proof -
  let ?ps' = "map (\<lambda>i. advance_flame_particle exitX thrustScale (ds i) (ps ! i)) [0..<length ps]"
  have "?ps' ! i = advance_flame_particle exitX thrustScale (u0, u1, u2) (ps ! i)"
    using assms(2,3) by simp
  also have "\<dots> = (ps ! i)\<lparr>p_position := (fround exitX, 0, 0), p_lifetime := fround u1,
      p_radius := fround (u2 powr 0.6)\<rparr>"
    using assms(5) by (rule advance_flame_overflow)
  finally have "p_position (?ps' ! i) = (fround exitX, 0, 0)" "p_lifetime (?ps' ! i) = fround u1"
    "p_radius (?ps' ! i) = fround (u2 powr 0.6)"
    by simp_all
  moreover have u: "0 \<le> u1" "u1 < 1" "0 \<le> u2" "u2 < 1"
    using assms(3,4) by (simp_all add: good_draws_def)
  moreover have "0 \<le> fround u1" "fround u1 \<le> 1"
    using u by (simp_all add: fround_nonneg fround_le_one)
  moreover have "0 \<le> fround (u2 powr 0.6)" "fround (u2 powr 0.6) \<le> 1"
    using radial_fraction_unit [OF u(3,4)] by simp_all
  moreover have "length ?ps' = length ps" by simp
  ultimately show ?thesis
    using updateFlame_pool [OF assms(1)] by auto
qed

theorem flame_overflow_rebirth_witness:
  "(0 :: nat) < length [\<lparr>p_position = (0.75, 0, 0), p_lifetime = 0.9921875, p_radius = 0.25\<rparr>]
   \<and> good_draws (0.5, 0.5, 0.25)
   \<and> fround (p_lifetime \<lparr>p_position = (0.75, 0, 0), p_lifetime = 0.9921875, p_radius = 0.25\<rparr>
        + (flame_speed 1 + 0.5 * 0.002)) > 1
   \<and> (\<exists>ps'. fl_particles (updateFlame 0.5 0.04 1 (\<lambda>i. (0.5, 0.5, 0.25))
               \<lparr>fl_exitX = 0.5, fl_exitR = 0.04,
                fl_physics = \<lparr>exit_mach = 3, exit_pressure_Pa = 150000,
                   ambient_pressure_Pa = 101325, exit_temperature_K = 1800, gamma = 1.2\<rparr>,
                fl_derived = \<lparr>pressureRatio = 1.48, plumeHalfAngle = 0.3398,
                   shockSpacing = 0.05, plumeLength = 0.3\<rparr>,
                fl_particles =
                  Some [\<lparr>p_position = (0.75, 0, 0), p_lifetime = 0.9921875, p_radius = 0.25\<rparr>]\<rparr>)
             = Some ps'
         \<and> length ps' = 1 \<and> p_position (ps' ! 0) = (0.5, 0, 0) \<and> p_lifetime (ps' ! 0) = 0.5
         \<and> p_radius (ps' ! 0) = fround (0.25 powr 0.6)
         \<and> 0 \<le> p_radius (ps' ! 0) \<and> p_radius (ps' ! 0) \<le> 1)"
proof -
  have g: "good_draws (0.5, 0.5, 0.25)" by (simp add: good_draws_def)
  have "fround (10071875 / 10000000) = of_int (round_half_even (10071875 / 10000000 * 8388608)) / 8388608"
    by (rule fround_unit_binade) simp_all
  then have "fround (10071875 / 10000000) > 1"
    by (simp add: round_half_even_def Let_def)
  then have o: "fround (p_lifetime \<lparr>p_position = (0.75, 0, 0), p_lifetime = 0.9921875, p_radius = 0.25\<rparr>
        + (flame_speed 1 + 0.5 * 0.002)) > 1"
    by (simp add: flame_speed_def)
  have h: "fround 0.5 = 0.5" using fround_half by simp
  show ?thesis
    using g o h flame_overflow_rebirth
      [of "\<lparr>fl_exitX = 0.5, fl_exitR = 0.04,
                fl_physics = \<lparr>exit_mach = 3, exit_pressure_Pa = 150000,
                   ambient_pressure_Pa = 101325, exit_temperature_K = 1800, gamma = 1.2\<rparr>,
                fl_derived = \<lparr>pressureRatio = 1.48, plumeHalfAngle = 0.3398,
                   shockSpacing = 0.05, plumeLength = 0.3\<rparr>,
                fl_particles =
                  Some [\<lparr>p_position = (0.75, 0, 0), p_lifetime = 0.9921875, p_radius = 0.25\<rparr>]\<rparr>"
          "[\<lparr>p_position = (0.75, 0, 0), p_lifetime = 0.9921875, p_radius = 0.25\<rparr>]" 0
          "\<lambda>i. (0.5, 0.5, 0.25)" "0.5" "0.5" "0.25" 1 "0.5" "0.04"]
    by auto
qed

text \<open>
  A particle at lifetime 0.9921875 under full thrust: the stored sum exceeds 1, and the
  lifetime after the step is the drawn value 0.5, not 0.
\<close>

theorem flame_overflow_counterexample:
  "fround (p_lifetime \<lparr>p_position = (0.75, 0, 0), p_lifetime = 0.9921875, p_radius = 0.25\<rparr>
        + (flame_speed 1 + 0.5 * 0.002)) > 1
   \<and> p_lifetime (advance_flame_particle 0.5 1 (0.5, 0.5, 0.25)
         \<lparr>p_position = (0.75, 0, 0), p_lifetime = 0.9921875, p_radius = 0.25\<rparr>) = 0.5
   \<and> p_lifetime (advance_flame_particle 0.5 1 (0.5, 0.5, 0.25)
         \<lparr>p_position = (0.75, 0, 0), p_lifetime = 0.9921875, p_radius = 0.25\<rparr>) \<noteq> 0"
proof -
  have "fround (10071875 / 10000000) = of_int (round_half_even (10071875 / 10000000 * 8388608)) / 8388608"
    by (rule fround_unit_binade) simp_all
  then have "fround (10071875 / 10000000) > 1"
    by (simp add: round_half_even_def Let_def)
  then have o: "fround (p_lifetime \<lparr>p_position = (0.75, 0, 0), p_lifetime = 0.9921875, p_radius = 0.25\<rparr>
        + (flame_speed 1 + 0.5 * 0.002)) > 1"
    by (simp add: flame_speed_def)
  have h: "fround 0.5 = 0.5" using fround_half by simp
  show ?thesis
    using o h advance_flame_overflow [OF o, of "0.5" "0.5" "0.25"]
    by simp
qed

subsection \<open>Particle lifetimes\<close>

lemma flame_lifetime_closed_unit:
  assumes "good_draws d" and "0 \<le> thrustScale"
    and "0 \<le> p_lifetime p" and "p_lifetime p \<le> 1"
  shows "0 \<le> p_lifetime (advance_flame_particle exitX thrustScale d p)
       \<and> p_lifetime (advance_flame_particle exitX thrustScale d p) \<le> 1"
proof -
  obtain u0 u1 u2 where d: "d = (u0, u1, u2)" by (cases d)
  have u: "0 \<le> u0" "0 \<le> u1" "u1 < 1" using assms(1) d by (simp_all add: good_draws_def)
  have inc: "0 \<le> flame_speed thrustScale + u0 * 0.002"
    using assms(2) u(1) by (simp add: flame_speed_def)
  show ?thesis
  proof (cases "fround (p_lifetime p + (flame_speed thrustScale + u0 * 0.002)) > 1")
    case True
    then show ?thesis
      using u by (simp add: d advance_flame_overflow fround_nonneg fround_le_one)
  next
    case False
    moreover have "0 \<le> fround (p_lifetime p + (flame_speed thrustScale + u0 * 0.002))"
      using inc assms(3) by (intro fround_nonneg) simp
    ultimately show ?thesis by (simp add: d advance_flame_no_overflow)
  qed
qed

lemma wrap_lifetime_ok:
  assumes "0 \<le> t" "0 \<le> inc" "t + inc \<le> 3 / 2"
  shows "0 \<le> wrap_lifetime (fround (t + inc)) \<and> wrap_lifetime (fround (t + inc)) < 1"
proof (cases "t + inc < 1")
  case True
  have y0: "0 \<le> t + inc" using assms by simp
  have s: "0 \<le> fround (t + inc)" "fround (t + inc) \<le> 1"
    using y0 True by (simp_all add: fround_nonneg fround_le_one)
  show ?thesis
  proof (cases "fround (t + inc) \<ge> 1")
    case True
    then have "fround (t + inc) = 1" using s by simp
    then show ?thesis by (simp add: wrap_lifetime_def fround_zero)
  next
    case False
    then show ?thesis using s by (simp add: wrap_lifetime_def)
  qed
next
  case False
  then have y1: "1 \<le> t + inc" by simp
  obtain k :: int where k: "fround (t + inc) = of_int k / 8388608"
    and kb: "8388608 \<le> k" "k \<le> 12582912"
    using fround_unit_grid [OF y1 assms(3)] by blast
  have ge: "fround (t + inc) \<ge> 1" unfolding k using kb(1) by simp
  have d: "fround (t + inc) - 1 = of_int (k - 8388608) / 8388608"
    unfolding k by (simp add: field_simps)
  have "fround (of_int (k - 8388608) / 8388608) = of_int (k - 8388608) / 8388608"
    using kb by (intro fround_fixed_below_one) simp_all
  then have w: "wrap_lifetime (fround (t + inc)) = of_int (k - 8388608) / 8388608"
    using ge unfolding wrap_lifetime_def d [symmetric] by simp
  have "0 \<le> (of_int (k - 8388608) :: real) / 8388608" using kb(1) by simp
  moreover have "(of_int (k - 8388608) :: real) / 8388608 < 1" using kb(2) by simp
  ultimately show ?thesis unfolding w by simp
qed

lemma frame_step_ok: "lifetime_ok lt \<Longrightarrow> lifetime_ok (frame_step lt)"
proof (cases lt)
  case None
  then show "lifetime_ok lt \<Longrightarrow> lifetime_ok (frame_step lt)" by simp
next
  case (Some t)
  assume "lifetime_ok lt"
  then have "0 \<le> t" "t < 1" using Some by simp_all
  then have "0 \<le> wrap_lifetime (fround (t + 0.012 * 0.6))
      \<and> wrap_lifetime (fround (t + 0.012 * 0.6)) < 1"
    by (intro wrap_lifetime_ok) simp_all
  then show "lifetime_ok (frame_step lt)" by (simp add: frame_step_def Some)
qed

lemma fold_max_ge: "(m :: real) \<le> fold max vs m"
  by (induction vs arbitrary: m) (auto intro: order_trans [OF max.cobounded2])

lemma fold_max_upper: "v \<in> set vs \<Longrightarrow> (v :: real) \<le> fold max vs m"
proof (induction vs arbitrary: m)
  case Nil
  then show ?case by simp
next
  case (Cons a vs)
  show ?case
  proof (cases "v = a")
    case True
    have "max a m \<le> fold max vs (max a m)" by (rule fold_max_ge)
    then show ?thesis using True by simp
  next
    case False
    then show ?thesis using Cons by simp
  qed
qed

lemma convex_bounds:
  fixes a b f m :: real
  assumes "0 \<le> a" "a \<le> m" "0 \<le> b" "b \<le> m" "0 \<le> f" "f \<le> 1"
  shows "0 \<le> a * (1 - f) + b * f \<and> a * (1 - f) + b * f \<le> m"
proof -
  have "a * (1 - f) + b * f \<le> m * (1 - f) + m * f"
    using assms by (intro add_mono mult_right_mono) simp_all
  also have "\<dots> = m" by (simp add: algebra_simps)
  finally have "a * (1 - f) + b * f \<le> m" .
  moreover have "0 \<le> a * (1 - f) + b * f" using assms by simp
  ultimately show ?thesis by simp
qed

lemma flow_step_ok:
  assumes "lifetime_ok lt" and "velocity \<noteq> []" and "\<forall>v \<in> set velocity. 0 \<le> v"
  shows "lifetime_ok (flow_step velocity (fold max velocity 1) lt)"
proof -
  obtain t where lt: "lt = Some t" and t: "0 \<le> t" "t < 1"
    using assms(1) by (cases lt) auto
  define n where "n = int (length velocity)"
  define maxV where "maxV = fold max velocity 1"
  define srcIdx where "srcIdx = t * real_of_int (n - 1)"
  define lo where "lo = \<lfloor>srcIdx\<rfloor>"
  define hi where "hi = min (lo + 1) (n - 1)"
  define frac where "frac = srcIdx - real_of_int lo"
  have n: "1 \<le> n" using assms(2) by (cases velocity) (simp_all add: n_def)
  have s0: "0 \<le> srcIdx" using t n by (simp add: srcIdx_def)
  have "srcIdx \<le> 1 * real_of_int (n - 1)"
    unfolding srcIdx_def using t n by (intro mult_right_mono) simp_all
  then have s1: "srcIdx \<le> real_of_int (n - 1)" by simp
  have lo0: "0 \<le> lo" using s0 by (simp add: lo_def)
  have "\<lfloor>srcIdx\<rfloor> \<le> \<lfloor>real_of_int (n - 1)\<rfloor>" using s1 by (rule floor_mono)
  then have "lo \<le> n - 1" unfolding lo_def by (simp only: floor_of_int)
  then have lo1: "lo < n" by simp
  have hi0: "0 \<le> hi" using lo0 n by (simp add: hi_def)
  have hi1: "hi < n" by (simp add: hi_def)
  have f: "0 \<le> frac" "frac \<le> 1" unfolding frac_def lo_def by linarith+
  define vlo where "vlo = velocity ! nat lo"
  define vhi where "vhi = velocity ! nat hi"
  have "nat lo < length velocity" "nat hi < length velocity"
    using lo0 lo1 hi0 hi1 by (simp_all add: n_def)
  then have mem: "vlo \<in> set velocity" "vhi \<in> set velocity"
    by (simp_all add: vlo_def vhi_def)
  have look: "velocity_at velocity lo = Some vlo" "velocity_at velocity hi = Some vhi"
    using lo0 lo1 hi0 hi1 by (simp_all add: velocity_at_def n_def vlo_def vhi_def)
  have v: "0 \<le> vlo" "vlo \<le> maxV" "0 \<le> vhi" "vhi \<le> maxV"
    using mem assms(3) by (simp_all add: maxV_def fold_max_upper)
  have m: "1 \<le> maxV" unfolding maxV_def by (rule fold_max_ge)
  define localVel where "localVel = vlo * (1 - frac) + vhi * frac"
  have lv: "0 \<le> localVel" "localVel \<le> maxV"
    unfolding localVel_def using convex_bounds [OF v f] by simp_all
  define sf where "sf = localVel / maxV"
  have sf: "0 \<le> sf" "sf \<le> 1" using lv m by (simp_all add: sf_def)
  have "0.012 * (0.3 + 0.7 * sf) \<le> 0.012 * (0.3 + 0.7 * 1)"
    using sf by (intro mult_left_mono add_left_mono) simp_all
  then have inc: "0 \<le> 0.012 * (0.3 + 0.7 * sf)" "0.012 * (0.3 + 0.7 * sf) \<le> 1 / 2"
    using sf by simp_all
  have "0 \<le> wrap_lifetime (fround (t + 0.012 * (0.3 + 0.7 * sf)))
        \<and> wrap_lifetime (fround (t + 0.012 * (0.3 + 0.7 * sf))) < 1"
    using t inc by (intro wrap_lifetime_ok) linarith+
  moreover have "flow_step velocity maxV lt
      = Some (wrap_lifetime (fround (t + 0.012 * (0.3 + 0.7 * sf))))"
    unfolding flow_step_def lt option.case Let_def
      n_def [symmetric] srcIdx_def [symmetric] lo_def [symmetric] hi_def [symmetric]
      frac_def [symmetric] look prod.case localVel_def [symmetric] sf_def [symmetric]
    by (rule refl)
  ultimately show ?thesis by (simp add: maxV_def)
qed

text \<open>
  The internal-flow pool keeps every lifetime in \<open>[0, 1)\<close>, on the per-frame step and, for a
  non-empty array of non-negative velocities, on the per-tick step: it wraps with
  \<open>lifetime >= 1.0\<close>.
\<close>

lemma advanceInternalFlowParticles_ok:
  assumes "if_lifetimes st = Some ls" and "\<forall>l \<in> set ls. lifetime_ok l"
  shows "\<exists>ls'. if_lifetimes (advanceInternalFlowParticles st) = Some ls'
           \<and> length ls' = length ls \<and> (\<forall>l \<in> set ls'. lifetime_ok l)"
  using assms by (auto simp: advanceInternalFlowParticles_def frame_step_ok)

lemma updateInternalFlow_ok:
  assumes "if_lifetimes st = Some ls" and "\<forall>l \<in> set ls. lifetime_ok l"
    and "velocity \<noteq> []" and "\<forall>v \<in> set velocity. 0 \<le> v"
  shows "\<exists>ls'. if_lifetimes (updateInternalFlow station_x velocity st) = Some ls'
           \<and> length ls' = length ls \<and> (\<forall>l \<in> set ls'. lifetime_ok l)"
  using assms by (auto simp: updateInternalFlow_def Let_def flow_step_ok)

text \<open>
  C4.  The plume pool resets a particle only when its lifetime is strictly greater than
  1 (\<open>lifetimes[i] > 1.0\<close>).  A particle at lifetime 0.986, in \<open>[0, 1)\<close>, advanced under full
  thrust with a zero jitter draw lands exactly on 1.0 and is left there: after the call
  its lifetime is 1, outside \<open>[0, 1)\<close>.
\<close>

theorem flame_lifetime_reaches_one:
  "0 \<le> p_lifetime \<lparr>p_position = (0.4, 0, 0), p_lifetime = 0.986, p_radius = 0.5\<rparr>
   \<and> p_lifetime \<lparr>p_position = (0.4, 0, 0), p_lifetime = 0.986, p_radius = 0.5\<rparr> < 1
   \<and> good_draws (0, 0.5, 0.5)
   \<and> fl_particles (updateFlame 0.4 0.04 1 (\<lambda>i. (0, 0.5, 0.5))
        \<lparr>fl_exitX = 0.4, fl_exitR = 0.04,
         fl_physics = \<lparr>exit_mach = 3, exit_pressure_Pa = 150000,
            ambient_pressure_Pa = 101325, exit_temperature_K = 1800, gamma = 1.2\<rparr>,
         fl_derived = \<lparr>pressureRatio = 1.48, plumeHalfAngle = 0.3398,
            shockSpacing = 0.05, plumeLength = 0.3\<rparr>,
         fl_particles = Some [\<lparr>p_position = (0.4, 0, 0), p_lifetime = 0.986, p_radius = 0.5\<rparr>]\<rparr>)
       = Some [\<lparr>p_position = (0.4, 0, 0), p_lifetime = 1, p_radius = 0.5\<rparr>]"
  by (simp add: updateFlame_def advance_flame_particle_def flame_speed_def good_draws_def Let_def
      fround_one)


text \<open>
  The same happens from a lifetime that is itself a binary32 value: 0.9921875, no thrust
  and the jitter draw 0.90625.
\<close>

lemma flame_lifetime_reaches_one_binary32:
  "fround 0.9921875 = 0.9921875
   \<and> p_lifetime (advance_flame_particle 0.4 0 (0.90625, 0.5, 0.5)
        \<lparr>p_position = (0.4, 0, 0), p_lifetime = 0.9921875, p_radius = 0.5\<rparr>) = 1"
proof -
  have "fround (9921875 / 10000000) = of_int (round_half_even (9921875 / 10000000 * 16777216)) / 16777216"
    by (rule fround_half_binade) simp_all
  then have "fround (9921875 / 10000000) = 9921875 / 10000000"
    by (simp add: round_half_even_def Let_def)
  then show ?thesis
    by (simp add: advance_flame_particle_def flame_speed_def Let_def fround_one)
qed
subsection \<open>Overlay controller\<close>

lemmas overlay_defs =
  applyHeatMap_def clearHeatMap_def applyStressOverlay_def clearStressOverlay_def
  removeCoolantArrows_def drawCoolantFlow_def applyFlow_def clearFlowViz_def
  removeCrossSection_def clearCutawayAndCrossSection_def clearCoolingViz_def
  applyChannelShader_def enableCutaway_def showCoolingViz_def showCrossSection_def

lemmas controller_defs =
  applyVisualization_def overlay_calls_def clear_calls_def apply_calls_def

lemma click_heatmap_fresh:
  assumes "outerMaterial s = Some m0" "heat_original s = None" "stress_original s = None"
    "\<not> channelShaderActive s"
  shows "let s1 = handle (VizButton Heatmap) s in
     lastSimData s1 = lastSimData s \<and> stress_original s1 = None \<and> \<not> channelShaderActive s1
     \<and> ((outerMaterial s1 = Some m0 \<and> heat_original s1 = None)
        \<or> (outerMaterial s1 = Some HeatMaterial \<and> heat_original s1 = Some m0
             \<and> lastSimData s1 \<noteq> None))"
  using assms
  by (auto simp: controller_defs overlay_defs Let_def split: option.splits)

lemma click_stress_after_heatmap:
  assumes "stress_original s = None" "\<not> channelShaderActive s"
    and "(outerMaterial s = Some m0 \<and> heat_original s = None)
        \<or> (outerMaterial s = Some HeatMaterial \<and> heat_original s = Some m0
             \<and> lastSimData s \<noteq> None)"
  shows "let s2 = handle (VizButton Stress) s in
     lastSimData s2 = lastSimData s \<and> \<not> channelShaderActive s2
     \<and> (heat_original s2 = None \<or> heat_original s2 = Some m0)
     \<and> ((outerMaterial s2 = Some m0 \<and> (stress_original s2 = None \<or> stress_original s2 = Some m0))
        \<or> (outerMaterial s2 = Some StressMaterial \<and> stress_original s2 = Some m0
             \<and> lastSimData s2 \<noteq> None))"
  using assms
  by (auto simp: controller_defs overlay_defs Let_def split: option.splits)

lemma click_normal_after_stress:
  assumes "\<not> channelShaderActive s"
    and "heat_original s = None \<or> heat_original s = Some m0"
    and "(outerMaterial s = Some m0 \<and> (stress_original s = None \<or> stress_original s = Some m0))
        \<or> (outerMaterial s = Some StressMaterial \<and> stress_original s = Some m0
             \<and> lastSimData s \<noteq> None)"
  shows "outerMaterial (handle (VizButton Normal) s) = Some m0"
  using assms
  by (auto simp: controller_defs overlay_defs Let_def split: option.splits)

text \<open>
  The round trip on a state in which no overlay module holds a captured material (no
  original in the heat-map or stress module, channel shader off): with the outer wall
  holding \<open>m0\<close>, the button sequence Thermal, Stress, None leaves the outer wall with
  \<open>m0\<close>, and whenever the heat map was applied in the first step, the reference it
  captured is \<open>m0\<close>.
\<close>

lemma thermal_stress_none_first_use:
  assumes "outerMaterial s = Some m0" and "heat_original s = None"
    and "stress_original s = None" and "\<not> channelShaderActive s"
  shows "outerMaterial (run_events [VizButton Heatmap, VizButton Stress, VizButton Normal] s) = Some m0
       \<and> (heat_original (handle (VizButton Heatmap) s) = None
          \<or> heat_original (handle (VizButton Heatmap) s) = Some m0)"
proof -
  define s1 where "s1 = handle (VizButton Heatmap) s"
  define s2 where "s2 = handle (VizButton Stress) s1"
  have a: "stress_original s1 = None" "\<not> channelShaderActive s1"
    "(outerMaterial s1 = Some m0 \<and> heat_original s1 = None)
        \<or> (outerMaterial s1 = Some HeatMaterial \<and> heat_original s1 = Some m0
             \<and> lastSimData s1 \<noteq> None)"
    using click_heatmap_fresh [OF assms] unfolding s1_def Let_def by blast+
  have b: "\<not> channelShaderActive s2"
    "heat_original s2 = None \<or> heat_original s2 = Some m0"
    "(outerMaterial s2 = Some m0 \<and> (stress_original s2 = None \<or> stress_original s2 = Some m0))
        \<or> (outerMaterial s2 = Some StressMaterial \<and> stress_original s2 = Some m0
             \<and> lastSimData s2 \<noteq> None)"
    using click_stress_after_heatmap [OF a] unfolding s2_def Let_def by blast+
  have "outerMaterial (handle (VizButton Normal) s2) = Some m0"
    using b by (rule click_normal_after_stress)
  moreover have "run_events [VizButton Heatmap, VizButton Stress, VizButton Normal] s
      = handle (VizButton Normal) s2"
    by (simp add: run_events_def s1_def s2_def)
  ultimately show ?thesis using a(3) unfolding s1_def by auto
qed

lemma thermal_stress_none_first_use_example:
  "outerMaterial (init_viz\<lparr>outerMaterial := Some (MeshMaterial 0), freshMaterial := 1,
        lastSimData := Some \<lparr>wall_temp_inner_K = Some [300, 400],
          von_mises_stress_MPa = Some [10, 20], mach = Some [0.3, 2],
          coolant_velocity_m_s = None\<rparr>\<rparr>) = Some (MeshMaterial 0)
   \<and> heat_original (init_viz\<lparr>outerMaterial := Some (MeshMaterial 0), freshMaterial := 1,
        lastSimData := Some \<lparr>wall_temp_inner_K = Some [300, 400],
          von_mises_stress_MPa = Some [10, 20], mach = Some [0.3, 2],
          coolant_velocity_m_s = None\<rparr>\<rparr>) = None
   \<and> outerMaterial (handle (VizButton Heatmap)
        (init_viz\<lparr>outerMaterial := Some (MeshMaterial 0), freshMaterial := 1,
        lastSimData := Some \<lparr>wall_temp_inner_K = Some [300, 400],
          von_mises_stress_MPa = Some [10, 20], mach = Some [0.3, 2],
          coolant_velocity_m_s = None\<rparr>\<rparr>)) = Some HeatMaterial
   \<and> heat_original (handle (VizButton Heatmap)
        (init_viz\<lparr>outerMaterial := Some (MeshMaterial 0), freshMaterial := 1,
        lastSimData := Some \<lparr>wall_temp_inner_K = Some [300, 400],
          von_mises_stress_MPa = Some [10, 20], mach = Some [0.3, 2],
          coolant_velocity_m_s = None\<rparr>\<rparr>)) = Some (MeshMaterial 0)
   \<and> outerMaterial (run_events [VizButton Heatmap, VizButton Stress]
        (init_viz\<lparr>outerMaterial := Some (MeshMaterial 0), freshMaterial := 1,
        lastSimData := Some \<lparr>wall_temp_inner_K = Some [300, 400],
          von_mises_stress_MPa = Some [10, 20], mach = Some [0.3, 2],
          coolant_velocity_m_s = None\<rparr>\<rparr>)) = Some StressMaterial
   \<and> outerMaterial (run_events [VizButton Heatmap, VizButton Stress, VizButton Normal]
        (init_viz\<lparr>outerMaterial := Some (MeshMaterial 0), freshMaterial := 1,
        lastSimData := Some \<lparr>wall_temp_inner_K = Some [300, 400],
          von_mises_stress_MPa = Some [10, 20], mach = Some [0.3, 2],
          coolant_velocity_m_s = None\<rparr>\<rparr>)) = Some (MeshMaterial 0)"
proof -
  let ?s = "init_viz\<lparr>outerMaterial := Some (MeshMaterial 0), freshMaterial := 1,
        lastSimData := Some \<lparr>wall_temp_inner_K = Some [300, 400],
          von_mises_stress_MPa = Some [10, 20], mach = Some [0.3, 2],
          coolant_velocity_m_s = None\<rparr>\<rparr>"
  have h: "outerMaterial ?s = Some (MeshMaterial 0)" "heat_original ?s = None"
    "stress_original ?s = None" "\<not> channelShaderActive ?s"
    by (simp_all add: init_viz_def)
  have e1: "outerMaterial (handle (VizButton Heatmap) ?s) = Some HeatMaterial"
    "heat_original (handle (VizButton Heatmap) ?s) = Some (MeshMaterial 0)"
    by (simp_all add: init_viz_def controller_defs overlay_defs Let_def)
  have e2: "outerMaterial (run_events [VizButton Heatmap, VizButton Stress] ?s) = Some StressMaterial"
    by (simp add: run_events_def init_viz_def controller_defs overlay_defs Let_def)
  show ?thesis
    using thermal_stress_none_first_use [OF h] h e1 e2 by simp
qed

subsection \<open>At most one overlay is active\<close>




















lemma overlay_inv_aux: "overlay_inv s \<Longrightarrow> overlay_aux s"
  by (simp add: overlay_inv_def)







subsection \<open>Clear-all, apply-one\<close>














lemma createLatheGeometry_defined:
  "2 \<le> length p \<Longrightarrow> \<exists>g. createLatheGeometry p nCirc = Inr g"
  using lathe_rings_defined [of p "[0..<length p]" nCirc]
  by (auto simp: createLatheGeometry_def)

lemma onMeshUpdate_ok:
  assumes "2 \<le> length (profile_2d md)" and "2 \<le> length (outer_profile_2d md)"
  shows "onMeshUpdate md s =
      s\<lparr>lastMeshData := Some md, stationCount := length (profile_2d md),
        outerMaterial := Some (MeshMaterial (freshMaterial s)),
        freshMaterial := freshMaterial s + 1,
        innerMesh := Some \<lparr>color_attr = None, vertexColors = False\<rparr>\<rparr>"
proof -
  obtain g1 where g1: "createLatheGeometry (outer_profile_2d md) circumSegments = Inr g1"
    using createLatheGeometry_defined [OF assms(2)] by blast
  obtain g2 where g2: "createLatheGeometry (profile_2d md) circumSegments = Inr g2"
    using createLatheGeometry_defined [OF assms(1)] by blast
  show ?thesis by (simp add: onMeshUpdate_def g1 g2 Let_def)
qed

lemma run_to_after_tick:
  "run_events [MeshUpdate sample_mesh, SimTick sample_tick] init_viz = after_tick"
proof -
  have m: "onMeshUpdate sample_mesh init_viz =
      init_viz\<lparr>lastMeshData := Some sample_mesh, stationCount := length (profile_2d sample_mesh),
        outerMaterial := Some (MeshMaterial (freshMaterial init_viz)),
        freshMaterial := freshMaterial init_viz + 1,
        innerMesh := Some \<lparr>color_attr = None, vertexColors = False\<rparr>\<rparr>"
    by (rule onMeshUpdate_ok) (simp_all add: sample_mesh_def)
  show ?thesis
    unfolding run_events_def
    by (simp add: m) (simp add: init_viz_def after_tick_def sample_mesh_def
        controller_defs overlay_defs Let_def)
qed













subsection \<open>Captured materials across a mesh rebuild\<close>

lemma run_events_append: "run_events (es @ fs) s = run_events fs (run_events es s)"
  by (simp add: run_events_def)

lemma stress_then_normal_state:
  "run_events [VizButton Stress, VizButton Normal] after_tick =
     after_tick\<lparr>stress_original := Some (MeshMaterial 0)\<rparr>"
  by (simp add: run_events_def after_tick_def sample_tick_def controller_defs overlay_defs Let_def)

lemma rebuild_state:
  "handle (MeshUpdate sample_mesh) (after_tick\<lparr>stress_original := Some (MeshMaterial 0)\<rparr>) =
     after_tick\<lparr>stress_original := Some (MeshMaterial 0),
        outerMaterial := Some (MeshMaterial 1), freshMaterial := 2\<rparr>"
proof -
  have "onMeshUpdate sample_mesh (after_tick\<lparr>stress_original := Some (MeshMaterial 0)\<rparr>) =
      (after_tick\<lparr>stress_original := Some (MeshMaterial 0)\<rparr>)
        \<lparr>lastMeshData := Some sample_mesh, stationCount := length (profile_2d sample_mesh),
        outerMaterial := Some (MeshMaterial
           (freshMaterial (after_tick\<lparr>stress_original := Some (MeshMaterial 0)\<rparr>))),
        freshMaterial := freshMaterial (after_tick\<lparr>stress_original := Some (MeshMaterial 0)\<rparr>) + 1,
        innerMesh := Some \<lparr>color_attr = None, vertexColors = False\<rparr>\<rparr>"
    by (rule onMeshUpdate_ok) (simp_all add: sample_mesh_def)
  thus ?thesis by (simp add: after_tick_def sample_mesh_def)
qed

lemma rebuilt_run:
  "run_events [MeshUpdate sample_mesh, SimTick sample_tick, VizButton Stress, VizButton Normal,
       MeshUpdate sample_mesh] init_viz =
     after_tick\<lparr>stress_original := Some (MeshMaterial 0),
        outerMaterial := Some (MeshMaterial 1), freshMaterial := 2\<rparr>"
proof -
  have "run_events [MeshUpdate sample_mesh, SimTick sample_tick, VizButton Stress, VizButton Normal,
       MeshUpdate sample_mesh] init_viz =
     handle (MeshUpdate sample_mesh) (run_events [VizButton Stress, VizButton Normal]
       (run_events [MeshUpdate sample_mesh, SimTick sample_tick] init_viz))"
    by (simp add: run_events_def)
  thus ?thesis by (simp only: run_to_after_tick stress_then_normal_state rebuild_state)
qed

text \<open>
  Claim C3 (Thermal, Stress, None restores the material of a freshly built mesh).  The
  heat-map and stress modules capture the outer wall material once and never drop the
  reference, and a mesh rebuild gives the outer wall a new material.  After the stress
  overlay has been used and the mesh has been rebuilt, the fresh wall holds material 1
  and Thermal has never been applied; the first clear phase then installs the material
  captured from the discarded mesh (material 0), the heat map captures that one, and the
  sequence Thermal, Stress, None ends on material 0 instead of material 1.
\<close>

theorem thermal_stress_none_reinstalls_stale_material:
  "outerMaterial (run_events [MeshUpdate sample_mesh, SimTick sample_tick, VizButton Stress,
       VizButton Normal, MeshUpdate sample_mesh] init_viz) = Some (MeshMaterial 1)
   \<and> heat_original (run_events [MeshUpdate sample_mesh, SimTick sample_tick, VizButton Stress,
       VizButton Normal, MeshUpdate sample_mesh] init_viz) = None
   \<and> heat_original (handle (VizButton Heatmap)
       (run_events [MeshUpdate sample_mesh, SimTick sample_tick, VizButton Stress,
         VizButton Normal, MeshUpdate sample_mesh] init_viz)) = Some (MeshMaterial 0)
   \<and> outerMaterial (run_events [VizButton Heatmap, VizButton Stress, VizButton Normal]
       (run_events [MeshUpdate sample_mesh, SimTick sample_tick, VizButton Stress,
         VizButton Normal, MeshUpdate sample_mesh] init_viz)) = Some (MeshMaterial 0)"
  unfolding rebuilt_run
  by (simp add: run_events_def after_tick_def sample_tick_def controller_defs overlay_defs Let_def)

end
